theory Spec2Isabelle
  imports Complex_Main "HOL-Library.Log_Nat" "HOL-Library.AList"
begin

section \<open>ECMAScript values as the listener sees them\<close>

text \<open>
  The listener of \<^verbatim>\<open>src/index.ts\<close> is TypeScript; its type annotations and its casts
  (\<^verbatim>\<open>as number\<close>, \<^verbatim>\<open>as string\<close>) are erased before it runs, so the model works on untyped
  ECMAScript values and spells out every coercion and every \<^verbatim>\<open>TypeError\<close>.

  A string is the list of its code points (the pattern of the record hook has the
  \<^verbatim>\<open>u\<close> flag and reads code points; splitting at U+0020 gives the same pieces on code
  points as on UTF-16 code units). Property keys are the identifiers of the sheet schema
  and are kept as HOL strings. Values are the primitive kinds and plain objects whose
  keys hold such values again, as a JSON document gives them; arrays are outside the
  model.
\<close>

type_synonym jsstring = "nat list"

definition cp :: "string \<Rightarrow> jsstring" where
  "cp s = map of_char s"

subsection \<open>Numbers\<close>

text \<open>
  A Number is NaN, an infinity or a finite binary64 value, held as the rational it
  denotes; \<open>-0\<close> is identified with \<open>0\<close> (the program never divides, so the two
  zeros are indistinguishable in it). Arithmetic rounds its exact result to binary64,
  ties to even.
\<close>

datatype jsnum = NaN | PInf | NInf | Fin rat

definition floor_log2 :: "rat \<Rightarrow> int" where
  \<comment> \<open>for \<open>0 < a\<close>, the \<open>k\<close> with \<open>2 ^ k \<le> a < 2 ^ (k + 1)\<close>\<close>
  "floor_log2 a =
     (let p = fst (quotient_of a); d = snd (quotient_of a); k0 = bitlen p - bitlen d
      in if power_int 2 k0 \<le> a then k0 else k0 - 1)"

definition round_half_even :: "rat \<Rightarrow> int" where
  "round_half_even x =
     (let f = \<lfloor>x\<rfloor>; d = x - of_int f
      in if d < 1 / 2 then f else if 1 / 2 < d then f + 1
         else if even f then f else f + 1)"

definition overflows :: "rat \<Rightarrow> bool" where
  "overflows r \<longleftrightarrow> 2 ^ 1024 \<le> r"

definition round_binary64 :: "rat \<Rightarrow> jsnum" where
  \<comment> \<open>53 significant bits, least exponent \<open>-1074\<close>, overflow at \<open>2 ^ 1024\<close>\<close>
  "round_binary64 q =
     (if q = 0 then Fin 0
      else let a = \<bar>q\<bar>;
               e = max (floor_log2 a - 52) (- 1074);
               m = round_half_even (a / power_int 2 e);
               r = of_int m * power_int 2 e
           in if overflows r then (if q < 0 then NInf else PInf)
              else Fin (if q < 0 then - r else r))"

fun js_sub :: "jsnum \<Rightarrow> jsnum \<Rightarrow> jsnum" where
  "js_sub NaN _ = NaN"
| "js_sub _ NaN = NaN"
| "js_sub PInf PInf = NaN"
| "js_sub NInf NInf = NaN"
| "js_sub PInf _ = PInf"
| "js_sub NInf _ = NInf"
| "js_sub (Fin a) PInf = NInf"
| "js_sub (Fin a) NInf = PInf"
| "js_sub (Fin a) (Fin b) = round_binary64 (a - b)"

fun js_neg :: "jsnum \<Rightarrow> jsnum" where
  "js_neg NaN = NaN"
| "js_neg PInf = NInf"
| "js_neg NInf = PInf"
| "js_neg (Fin a) = Fin (- a)"

fun math_max :: "jsnum \<Rightarrow> jsnum \<Rightarrow> jsnum" where
  \<comment> \<open>\<^verbatim>\<open>Math.max(x, y)\<close>: NaN if either argument is NaN\<close>
  "math_max NaN _ = NaN"
| "math_max _ NaN = NaN"
| "math_max PInf _ = PInf"
| "math_max _ PInf = PInf"
| "math_max NInf y = y"
| "math_max x NInf = x"
| "math_max (Fin a) (Fin b) = Fin (max a b)"

fun num_less :: "jsnum \<Rightarrow> jsnum \<Rightarrow> bool" where
  \<comment> \<open>\<^verbatim>\<open>x < y\<close> on Numbers: false as soon as one of them is NaN\<close>
  "num_less NaN _ = False"
| "num_less _ NaN = False"
| "num_less PInf _ = False"
| "num_less _ NInf = False"
| "num_less NInf _ = True"
| "num_less _ PInf = True"
| "num_less (Fin a) (Fin b) = (a < b)"

subsection \<open>Values and the coercion to Number\<close>

datatype error = TypeError | SecretNotFound string | ApiError | MailError

datatype jsval =
    JUndefined
  | JNull
  | JBool bool
  | JNum jsnum
  | JStr jsstring
  | JObj "(string \<times> jsval) list"

definition is_space :: "nat \<Rightarrow> bool" where
  \<comment> \<open>WhiteSpace and LineTerminator of ECMAScript: what \<^verbatim>\<open>\s\<close> matches and what
     the conversion of a string to a Number trims\<close>
  "is_space c \<longleftrightarrow>
     c \<in> {9, 10, 11, 12, 13, 32, 160, 5760, 8232, 8233, 8239, 8287, 12288, 65279}
     \<or> (8192 \<le> c \<and> c \<le> 8202)"

definition trim :: "jsstring \<Rightarrow> jsstring" where
  "trim s = rev (dropWhile is_space (rev (dropWhile is_space s)))"

definition is_digit :: "nat \<Rightarrow> bool" where
  "is_digit c \<longleftrightarrow> 48 \<le> c \<and> c \<le> 57"

definition digit_val :: "nat \<Rightarrow> nat \<Rightarrow> nat option" where
  \<comment> \<open>the value of the digit \<open>c\<close> in base \<open>b\<close>\<close>
  "digit_val b c =
     (let v = (if 48 \<le> c \<and> c \<le> 57 then Some (c - 48)
               else if 97 \<le> c \<and> c \<le> 102 then Some (c - 87)
               else if 65 \<le> c \<and> c \<le> 70 then Some (c - 55)
               else None)
      in case v of None \<Rightarrow> None | Some d \<Rightarrow> if d < b then Some d else None)"

primrec digits_acc :: "nat \<Rightarrow> nat \<Rightarrow> jsstring \<Rightarrow> nat option" where
  "digits_acc b acc [] = Some acc"
| "digits_acc b acc (c # cs) =
     (case digit_val b c of None \<Rightarrow> None | Some d \<Rightarrow> digits_acc b (acc * b + d) cs)"

definition parse_digits :: "nat \<Rightarrow> jsstring \<Rightarrow> nat option" where
  \<comment> \<open>one or more digits of base \<open>b\<close>, and nothing else\<close>
  "parse_digits b s = (if s = [] then None else digits_acc b 0 s)"

definition parse_exponent :: "jsstring \<Rightarrow> int option" where
  \<comment> \<open>what follows the mantissa: nothing, or \<^verbatim>\<open>e\<close>/\<^verbatim>\<open>E\<close>, an optional sign and digits\<close>
  "parse_exponent s =
     (case s of
        [] \<Rightarrow> Some 0
      | c # t \<Rightarrow>
          if c = 101 \<or> c = 69 then
            (case t of
               [] \<Rightarrow> None
             | x # ds \<Rightarrow>
                 if x = 43 then map_option int (parse_digits 10 ds)
                 else if x = 45 then map_option (\<lambda>n. - int n) (parse_digits 10 ds)
                 else map_option int (parse_digits 10 t))
          else None)"

definition parse_unsigned_decimal :: "jsstring \<Rightarrow> jsnum option" where
  \<comment> \<open>StrUnsignedDecimalLiteral: \<^verbatim>\<open>Infinity\<close>, or digits with an optional fraction and
     exponent, at least one digit in the mantissa\<close>
  "parse_unsigned_decimal s =
     (if s = cp ''Infinity'' then Some PInf
      else let ip = takeWhile is_digit s;
               r1 = dropWhile is_digit s;
               fp = (case r1 of [] \<Rightarrow> [] | c # t \<Rightarrow> if c = 46 then takeWhile is_digit t else []);
               r2 = (case r1 of [] \<Rightarrow> [] | c # t \<Rightarrow> if c = 46 then dropWhile is_digit t else r1)
           in if ip = [] \<and> fp = [] then None
              else case parse_digits 10 (ip @ fp) of
                     None \<Rightarrow> None
                   | Some m \<Rightarrow>
                       (case parse_exponent r2 of
                          None \<Rightarrow> None
                        | Some ex \<Rightarrow>
                            Some (round_binary64
                                    (of_nat m * power_int 10 (ex - int (length fp))))))"

definition parse_radix :: "nat \<Rightarrow> jsstring \<Rightarrow> jsnum" where
  "parse_radix b ds =
     (case parse_digits b ds of None \<Rightarrow> NaN | Some n \<Rightarrow> round_binary64 (of_nat n))"

definition parse_signed_decimal :: "jsstring \<Rightarrow> jsnum" where
  "parse_signed_decimal t =
     (case t of
        [] \<Rightarrow> NaN
      | c # u \<Rightarrow>
          if c = 43 then (case parse_unsigned_decimal u of None \<Rightarrow> NaN | Some v \<Rightarrow> v)
          else if c = 45 then
            (case parse_unsigned_decimal u of None \<Rightarrow> NaN | Some v \<Rightarrow> js_neg v)
          else (case parse_unsigned_decimal t of None \<Rightarrow> NaN | Some v \<Rightarrow> v))"

definition string_to_number :: "jsstring \<Rightarrow> jsnum" where
  \<comment> \<open>StringToNumber: trim, the empty string is \<open>0\<close>, a binary, octal or hexadecimal
     integer literal has no sign, anything that is not a numeric literal is NaN\<close>
  "string_to_number s =
     (let t = trim s
      in case t of
           [] \<Rightarrow> Fin 0
         | c # r \<Rightarrow>
             (case r of
                [] \<Rightarrow> parse_signed_decimal t
              | x # ds \<Rightarrow>
                  if c = 48 \<and> (x = 120 \<or> x = 88) then parse_radix 16 ds
                  else if c = 48 \<and> (x = 111 \<or> x = 79) then parse_radix 8 ds
                  else if c = 48 \<and> (x = 98 \<or> x = 66) then parse_radix 2 ds
                  else parse_signed_decimal t))"

definition object_to_primitive :: "(string \<times> jsval) list \<Rightarrow> error + jsstring" where
  \<comment> \<open>ToPrimitive on a plain object, with either hint. The values of its keys are data,
     none is callable: a key \<^verbatim>\<open>valueOf\<close> of its own is passed over, the inherited
     \<^verbatim>\<open>valueOf\<close> answers the object itself, and the inherited \<^verbatim>\<open>toString\<close> answers
     \<^verbatim>\<open>[object Object]\<close>. A key \<^verbatim>\<open>toString\<close> of its own hides the inherited method and
     is not callable, which leaves no method to call: a TypeError.\<close>
  "object_to_primitive kvs =
     (case map_of kvs ''toString'' of
        None \<Rightarrow> Inr (cp ''[object Object]'')
      | Some _ \<Rightarrow> Inl TypeError)"

definition to_number :: "jsval \<Rightarrow> error + jsnum" where
  \<comment> \<open>ToNumber\<close>
  "to_number v =
     (case v of
        JUndefined \<Rightarrow> Inr NaN
      | JNull \<Rightarrow> Inr (Fin 0)
      | JBool b \<Rightarrow> Inr (if b then Fin 1 else Fin 0)
      | JNum n \<Rightarrow> Inr n
      | JStr s \<Rightarrow> Inr (string_to_number s)
      | JObj kvs \<Rightarrow>
          (case object_to_primitive kvs of
             Inl e \<Rightarrow> Inl e
           | Inr s \<Rightarrow> Inr (string_to_number s)))"

definition gt_number :: "jsval \<Rightarrow> jsnum \<Rightarrow> error + bool" where
  \<comment> \<open>\<^verbatim>\<open>v > n\<close> for a Number \<open>n\<close>: the operands are never both strings, so both sides
     are compared as Numbers\<close>
  "gt_number v n = (case to_number v of Inl e \<Rightarrow> Inl e | Inr x \<Rightarrow> Inr (num_less n x))"

subsection \<open>Property access\<close>

definition get_prop :: "jsval \<Rightarrow> string \<Rightarrow> error + jsval" where
  \<comment> \<open>\<^verbatim>\<open>v.k\<close>: a TypeError on \<^verbatim>\<open>undefined\<close> and \<^verbatim>\<open>null\<close>, \<^verbatim>\<open>undefined\<close>
     for a key the value does not have. The keys the listener reads (\<^verbatim>\<open>values\<close>,
     \<^verbatim>\<open>stock\<close>, \<^verbatim>\<open>value\<close>, \<^verbatim>\<open>purchase\<close>) are not built-in properties of any
     primitive.\<close>
  "get_prop v k =
     (case v of
        JUndefined \<Rightarrow> Inl TypeError
      | JNull \<Rightarrow> Inl TypeError
      | JObj kvs \<Rightarrow> Inr (case map_of kvs k of None \<Rightarrow> JUndefined | Some x \<Rightarrow> x)
      | _ \<Rightarrow> Inr JUndefined)"

section \<open>The purchase-order transformer\<close>

text \<open>
  \<^verbatim>\<open>
  const purchaseInventory = currentInventory.data.records.map((item) => {
    const stockValue = item.values.stock.value;
    const stockOrder = Math.max(3 - (stockValue as number), 0);
    item.values.purchase = { value: stockOrder, valid: true };
    const { stock, ...fields } = item.values;
    return fields;
  });
  const purchaseOrder = purchaseInventory.filter(
    (item) => (item.purchase.value as number) > 0
  );
  \<close>
\<close>

definition stockOrder :: "jsnum \<Rightarrow> jsnum" where
  \<comment> \<open>\<^verbatim>\<open>Math.max(3 - stockValue, 0)\<close> on the Number that \<^verbatim>\<open>stockValue\<close> converts to\<close>
  "stockOrder n = math_max (js_sub (Fin 3) n) (Fin 0)"

definition purchase_cell :: "jsnum \<Rightarrow> jsval" where
  "purchase_cell q = JObj [(''value'', JNum q), (''valid'', JBool True)]"

definition purchase_line :: "jsval \<Rightarrow> error + jsval" where
  \<comment> \<open>the callback of \<^verbatim>\<open>map\<close>. The subtraction converts \<^verbatim>\<open>stockValue\<close> to a Number,
     which can throw. The assignment to \<^verbatim>\<open>item.values.purchase\<close> updates the
     key in place or appends it; the rest pattern copies every own key but \<^verbatim>\<open>stock\<close>.
     Assigning a property to a primitive throws in a module (strict mode); that branch
     is never reached, since only an object has a \<^verbatim>\<open>stock\<close> property to read.\<close>
  "purchase_line item =
     (case get_prop item ''values'' of
        Inl e \<Rightarrow> Inl e
      | Inr vals \<Rightarrow>
          (case get_prop vals ''stock'' of
             Inl e \<Rightarrow> Inl e
           | Inr stock \<Rightarrow>
               (case get_prop stock ''value'' of
                  Inl e \<Rightarrow> Inl e
                | Inr stockValue \<Rightarrow>
                    (case to_number stockValue of
                       Inl e \<Rightarrow> Inl e
                     | Inr n \<Rightarrow>
                         (case vals of
                            JObj kvs \<Rightarrow>
                              Inr (JObj (AList.delete ''stock''
                                     (AList.update ''purchase''
                                        (purchase_cell (stockOrder n)) kvs)))
                          | _ \<Rightarrow> Inl TypeError)))))"

primrec map_e :: "('a \<Rightarrow> error + 'b) \<Rightarrow> 'a list \<Rightarrow> error + 'b list" where
  \<comment> \<open>\<^verbatim>\<open>Array.prototype.map\<close> with a callback that may throw: the first throw ends it\<close>
  "map_e f [] = Inr []"
| "map_e f (x # xs) =
     (case f x of
        Inl e \<Rightarrow> Inl e
      | Inr y \<Rightarrow> (case map_e f xs of Inl e \<Rightarrow> Inl e | Inr ys \<Rightarrow> Inr (y # ys)))"

primrec filter_e :: "('a \<Rightarrow> error + bool) \<Rightarrow> 'a list \<Rightarrow> error + 'a list" where
  "filter_e p [] = Inr []"
| "filter_e p (x # xs) =
     (case p x of
        Inl e \<Rightarrow> Inl e
      | Inr b \<Rightarrow>
          (case filter_e p xs of
             Inl e \<Rightarrow> Inl e
           | Inr ys \<Rightarrow> Inr (if b then x # ys else ys)))"

definition purchaseInventory :: "jsval list \<Rightarrow> error + jsval list" where
  "purchaseInventory records = map_e purchase_line records"

definition purchase_value :: "jsval \<Rightarrow> error + jsval" where
  \<comment> \<open>\<^verbatim>\<open>item.purchase.value\<close>\<close>
  "purchase_value item =
     (case get_prop item ''purchase'' of Inl e \<Rightarrow> Inl e | Inr p \<Rightarrow> get_prop p ''value'')"

definition purchase_positive :: "jsval \<Rightarrow> error + bool" where
  \<comment> \<open>the callback of \<^verbatim>\<open>filter\<close>: \<^verbatim>\<open>item.purchase.value > 0\<close>\<close>
  "purchase_positive item =
     (case purchase_value item of Inl e \<Rightarrow> Inl e | Inr v \<Rightarrow> gt_number v (Fin 0))"

definition purchaseOrder :: "jsval list \<Rightarrow> error + jsval list" where
  "purchaseOrder purchaseInventory_lines = filter_e purchase_positive purchaseInventory_lines"

section \<open>The record validator\<close>

subsection \<open>Regular expressions\<close>

text \<open>
  A pattern without back-references, anchored at both ends and without the \<^verbatim>\<open>m\<close>, \<^verbatim>\<open>g\<close>
  and \<^verbatim>\<open>y\<close> flags, makes \<^verbatim>\<open>test\<close> answer whether the whole string belongs to the
  pattern's language. \<open>lang\<close> is that language and \<open>matches\<close> decides it with
  derivatives.
\<close>

datatype rexp =
    Never
  | Epsilon
  | Class "nat \<Rightarrow> bool"
  | Alt rexp rexp
  | Conc rexp rexp
  | Many rexp

inductive_set star :: "jsstring set \<Rightarrow> jsstring set" for A :: "jsstring set" where
  star_nil: "[] \<in> star A"
| star_app: "u \<in> A \<Longrightarrow> v \<in> star A \<Longrightarrow> u @ v \<in> star A"

primrec lang :: "rexp \<Rightarrow> jsstring set" where
  "lang Never = {}"
| "lang Epsilon = {[]}"
| "lang (Class p) = {[c] | c. p c}"
| "lang (Alt a b) = lang a \<union> lang b"
| "lang (Conc a b) = {u @ v | u v. u \<in> lang a \<and> v \<in> lang b}"
| "lang (Many a) = star (lang a)"

primrec nullable :: "rexp \<Rightarrow> bool" where
  "nullable Never = False"
| "nullable Epsilon = True"
| "nullable (Class p) = False"
| "nullable (Alt a b) = (nullable a \<or> nullable b)"
| "nullable (Conc a b) = (nullable a \<and> nullable b)"
| "nullable (Many a) = True"

definition alt :: "rexp \<Rightarrow> rexp \<Rightarrow> rexp" where
  \<comment> \<open>\<open>Alt\<close>, dropping a branch that matches nothing\<close>
  "alt a b = (case a of Never \<Rightarrow> b | _ \<Rightarrow> (case b of Never \<Rightarrow> a | _ \<Rightarrow> Alt a b))"

definition conc :: "rexp \<Rightarrow> rexp \<Rightarrow> rexp" where
  \<comment> \<open>\<open>Conc\<close>, dropping what matches nothing and a leading empty match\<close>
  "conc a b =
     (case a of
        Never \<Rightarrow> Never
      | Epsilon \<Rightarrow> b
      | _ \<Rightarrow> (case b of Never \<Rightarrow> Never | _ \<Rightarrow> Conc a b))"

primrec deriv :: "nat \<Rightarrow> rexp \<Rightarrow> rexp" where
  "deriv c Never = Never"
| "deriv c Epsilon = Never"
| "deriv c (Class p) = (if p c then Epsilon else Never)"
| "deriv c (Alt a b) = alt (deriv c a) (deriv c b)"
| "deriv c (Conc a b) =
     (if nullable a then alt (conc (deriv c a) b) (deriv c b) else conc (deriv c a) b)"
| "deriv c (Many a) = conc (deriv c a) (Many a)"

primrec matches :: "rexp \<Rightarrow> jsstring \<Rightarrow> bool" where
  "matches r [] = nullable r"
| "matches r (c # cs) = matches (deriv c r) cs"

definition some :: "rexp \<Rightarrow> rexp" where
  \<comment> \<open>the quantifier \<^verbatim>\<open>+\<close>\<close>
  "some r = Conc r (Many r)"

subsection \<open>What the engine provides\<close>

text \<open>
  Two tables of the ECMAScript engine are parameters of the model: the code points of
  the Unicode general category Letter (\<^verbatim>\<open>\p{L}\<close>) and the decimal rendering of a
  Number (\<^verbatim>\<open>Number::toString\<close>). Every theorem holds for any choice of them.
\<close>

record runtime =
  unicode_letter :: "nat \<Rightarrow> bool"
  number_to_string :: "jsnum \<Rightarrow> jsstring"

definition to_string :: "runtime \<Rightarrow> jsval \<Rightarrow> error + jsstring" where
  \<comment> \<open>ToString\<close>
  "to_string rt v =
     (case v of
        JUndefined \<Rightarrow> Inr (cp ''undefined'')
      | JNull \<Rightarrow> Inr (cp ''null'')
      | JBool b \<Rightarrow> Inr (if b then cp ''true'' else cp ''false'')
      | JNum n \<Rightarrow> Inr (number_to_string rt n)
      | JStr s \<Rightarrow> Inr s
      | JObj kvs \<Rightarrow> object_to_primitive kvs)"

subsection \<open>The hook on the sheet \<^verbatim>\<open>customers\<close>\<close>

text \<open>
  \<^verbatim>\<open>
  const author = record.get("author");
  function validateNameFormat(name) {
    const pattern: RegExp = /^\s*[\p{L}'-]+\s*,\s*[\p{L}'-]+\s*$/u;
    return pattern.test(name);
  }
  if (!validateNameFormat(author)) {
    const nameSplit = (author as string).split(" ");
    record.set("author", `${nameSplit[1]}, ${nameSplit[0]}`);
    record.addComment("author", "Author name was updated for vendor");
    return record;
  }
  \<close>
  \<^verbatim>\<open>FlatfileRecord\<close> is the class of the record-hook plugin: the values of one row by
  field key and the list of messages attached to it. Its methods check that the row has
  the field: \<^verbatim>\<open>get\<close> answers \<^verbatim>\<open>null\<close> for a field the row does not have, \<^verbatim>\<open>set\<close> and
  \<^verbatim>\<open>addComment\<close> leave the row as it is. A field may hold an object instead of a
  plain value (a field that links to another sheet does): \<^verbatim>\<open>get\<close> answers the
  \<^verbatim>\<open>value\<close> of an object that has that key, and \<^verbatim>\<open>set\<close> writes the \<^verbatim>\<open>value\<close> of an
  object that has the keys \<^verbatim>\<open>value\<close> and \<^verbatim>\<open>links\<close>.
\<close>

record FlatfileRecord =
  data :: "(string \<times> jsval) list"
  info :: "(string \<times> jsstring) list"

definition has_field :: "FlatfileRecord \<Rightarrow> string \<Rightarrow> bool" where
  "has_field r f = (map_of (data r) f \<noteq> None)"

definition unwrap :: "jsval \<Rightarrow> jsval" where
  \<comment> \<open>what \<^verbatim>\<open>get\<close> answers for a stored value: the \<^verbatim>\<open>value\<close> of an object that has
     one, the stored value otherwise\<close>
  "unwrap v =
     (case v of
        JObj kvs \<Rightarrow> (case map_of kvs ''value'' of None \<Rightarrow> v | Some x \<Rightarrow> x)
      | _ \<Rightarrow> v)"

definition is_linked :: "jsval \<Rightarrow> bool" where
  "is_linked v =
     (case v of
        JObj kvs \<Rightarrow> map_of kvs ''value'' \<noteq> None \<and> map_of kvs ''links'' \<noteq> None
      | _ \<Rightarrow> False)"

definition write_through :: "jsval \<Rightarrow> jsval \<Rightarrow> jsval" where
  \<comment> \<open>what \<^verbatim>\<open>set\<close> stores in place of the stored value \<open>old\<close>\<close>
  "write_through old v =
     (case old of
        JObj kvs \<Rightarrow> if is_linked old then JObj (AList.update ''value'' v kvs) else v
      | _ \<Rightarrow> v)"

definition record_get :: "FlatfileRecord \<Rightarrow> string \<Rightarrow> jsval" where
  "record_get r f = (case map_of (data r) f of None \<Rightarrow> JNull | Some v \<Rightarrow> unwrap v)"

definition record_set :: "FlatfileRecord \<Rightarrow> string \<Rightarrow> jsval \<Rightarrow> FlatfileRecord" where
  "record_set r f v =
     (case map_of (data r) f of
        None \<Rightarrow> r
      | Some old \<Rightarrow> r\<lparr>data := AList.update f (write_through old v) (data r)\<rparr>)"

definition record_addComment :: "FlatfileRecord \<Rightarrow> string \<Rightarrow> jsstring \<Rightarrow> FlatfileRecord" where
  "record_addComment r f msg = (if has_field r f then r\<lparr>info := info r @ [(f, msg)]\<rparr> else r)"

definition name_char :: "runtime \<Rightarrow> nat \<Rightarrow> bool" where
  \<comment> \<open>the class \<^verbatim>\<open>[\p{L}'-]\<close>\<close>
  "name_char rt c \<longleftrightarrow> unicode_letter rt c \<or> c = 39 \<or> c = 45"

definition pattern :: "runtime \<Rightarrow> rexp" where
  "pattern rt =
     Conc (Many (Class is_space))
       (Conc (some (Class (name_char rt)))
          (Conc (Many (Class is_space))
             (Conc (Class (\<lambda>c. c = 44))
                (Conc (Many (Class is_space))
                   (Conc (some (Class (name_char rt)))
                      (Many (Class is_space)))))))"

definition validateNameFormat :: "runtime \<Rightarrow> jsval \<Rightarrow> error + bool" where
  \<comment> \<open>\<^verbatim>\<open>test\<close> converts its argument to a string first, which can throw\<close>
  "validateNameFormat rt name =
     (case to_string rt name of
        Inl e \<Rightarrow> Inl e
      | Inr s \<Rightarrow> Inr (matches (pattern rt) s))"

fun split_on :: "nat \<Rightarrow> jsstring \<Rightarrow> jsstring list" where
  \<comment> \<open>\<^verbatim>\<open>String.prototype.split\<close> with a separator of one character: one piece more than
     there are separators, empty pieces kept\<close>
  "split_on sep [] = [[]]"
| "split_on sep (c # cs) =
     (if c = sep then [] # split_on sep cs
      else (case split_on sep cs of [] \<Rightarrow> [[c]] | p # ps \<Rightarrow> (c # p) # ps))"

definition js_split :: "jsval \<Rightarrow> error + jsstring list" where
  \<comment> \<open>\<^verbatim>\<open>author.split(" ")\<close>: only a string has the method; reading it off \<^verbatim>\<open>null\<close>
     throws, and calling the \<^verbatim>\<open>undefined\<close> that any other value has for it throws too\<close>
  "js_split v = (case v of JStr s \<Rightarrow> Inr (split_on 32 s) | _ \<Rightarrow> Inl TypeError)"

definition element :: "jsstring list \<Rightarrow> nat \<Rightarrow> jsval" where
  \<comment> \<open>\<^verbatim>\<open>xs[i]\<close> on an array of strings: \<^verbatim>\<open>undefined\<close> past the end\<close>
  "element xs i = (if i < length xs then JStr (xs ! i) else JUndefined)"

definition template :: "runtime \<Rightarrow> jsval \<Rightarrow> jsval \<Rightarrow> error + jsstring" where
  \<comment> \<open>the template literal: both values as strings, with a comma and a space between\<close>
  "template rt a b =
     (case to_string rt a of
        Inl e \<Rightarrow> Inl e
      | Inr x \<Rightarrow> (case to_string rt b of Inl e \<Rightarrow> Inl e | Inr y \<Rightarrow> Inr (x @ cp '', '' @ y)))"

definition recordHook_customers ::
  "runtime \<Rightarrow> FlatfileRecord \<Rightarrow> error + (FlatfileRecord option \<times> FlatfileRecord)" where
  \<comment> \<open>the result is what the callback returns (\<open>None\<close> for \<^verbatim>\<open>undefined\<close>) and the row as
     the callback leaves it\<close>
  "recordHook_customers rt record =
     (let author = record_get record ''author''
      in case validateNameFormat rt author of
           Inl e \<Rightarrow> Inl e
         | Inr well_formed \<Rightarrow>
             if \<not> well_formed then
               (case js_split author of
                  Inl e \<Rightarrow> Inl e
                | Inr nameSplit \<Rightarrow>
                    (case template rt (element nameSplit 1) (element nameSplit 0) of
                       Inl e \<Rightarrow> Inl e
                     | Inr rewritten \<Rightarrow>
                         (let r1 = record_set record ''author'' (JStr rewritten);
                              r2 = record_addComment r1 ''author''
                                     (cp ''Author name was updated for vendor'')
                          in Inr (Some r2, r2))))
             else Inr (None, record))"

section \<open>The handler of \<^verbatim>\<open>job:completed\<close>\<close>

text \<open>
  \<^verbatim>\<open>
  const email = await event.secrets("email");
  const password = await event.secrets("password");
  const { data } = await api.workbooks.get(event.context.workbookId);
  const inventorySheet = data.sheets[0].id;
  const orderSheet = data.sheets[1].id;
  const currentInventory = await api.records.get(inventorySheet);
  const purchaseInventory = currentInventory.data.records.map(...);
  const purchaseOrder = purchaseInventory.filter(...);
  await api.records.insert(orderSheet, purchaseOrder);
  const csv = await api.sheets.getRecordsAsCsv(orderSheet);
  const transporter = nodemailer.createTransport(
    { service: "Gmail", auth: { user: email, pass: password } });
  const mailOptions = { from: email, to: "warehouse@books.com", subject: "Purchase Order",
    text: "Attached", attachments: [{ filename: "orders.csv", content: csv }] };
  await sendMail(mailOptions);
  \<close>
  The platform is a state: the secrets of the event's context, the workbooks with the ids
  of their sheets in order, the records of every sheet, and the mails handed to the mail
  transport so far. Every call the handler awaits either answers or rejects, and a
  rejection ends the handler there; what was written before stays written. The calls of
  the platform follow the specification's account of it: a sheet's records are read as
  stored, an insert puts the new rows after the rows the sheet has, the export renders
  the sheet's current rows. Creating the transport sends nothing; only \<^verbatim>\<open>sendMail\<close>
  reaches the relay.
\<close>

record mail =
  auth_user :: jsval
  auth_pass :: jsval
  mail_from :: jsval
  mail_to :: jsstring
  subject :: jsstring
  body :: jsstring
  attachments :: "(jsstring \<times> jsstring) list"

record world =
  secret_store :: "string \<rightharpoonup> jsstring"
  workbooks :: "string \<rightharpoonup> string list"
  sheets :: "string \<rightharpoonup> jsval list"
  csv_of :: "jsval list \<Rightarrow> jsstring"
  relay_accepts :: "jsval \<Rightarrow> jsval \<Rightarrow> bool"
  outbox :: "mail list"

definition event_secrets :: "world \<Rightarrow> string \<Rightarrow> error + jsval" where
  \<comment> \<open>Modelled from the spec: \<^verbatim>\<open>event.secrets\<close> of the listener library is not among the
     sources. The spec has the resolution of a secret fail when the secret is absent.\<close>
  "event_secrets w key =
     (case secret_store w key of None \<Rightarrow> Inl (SecretNotFound key) | Some v \<Rightarrow> Inr (JStr v))"

definition workbooks_get :: "world \<Rightarrow> string \<Rightarrow> error + string list" where
  \<comment> \<open>\<^verbatim>\<open>api.workbooks.get\<close>: the sheets of the workbook\<close>
  "workbooks_get w wb = (case workbooks w wb of None \<Rightarrow> Inl ApiError | Some ss \<Rightarrow> Inr ss)"

definition sheet_id_at :: "string list \<Rightarrow> nat \<Rightarrow> error + string" where
  \<comment> \<open>\<^verbatim>\<open>data.sheets[i].id\<close>: reading \<^verbatim>\<open>id\<close> off a missing element throws\<close>
  "sheet_id_at ss i = (if i < length ss then Inr (ss ! i) else Inl TypeError)"

definition records_get :: "world \<Rightarrow> string \<Rightarrow> error + jsval list" where
  "records_get w sheet = (case sheets w sheet of None \<Rightarrow> Inl ApiError | Some rs \<Rightarrow> Inr rs)"

definition new_record :: "jsval \<Rightarrow> jsval" where
  \<comment> \<open>a row as the platform stores it: the inserted values under \<^verbatim>\<open>values\<close> (the id and
     the metadata the platform adds are left out)\<close>
  "new_record vals = JObj [(''values'', vals)]"

definition records_insert :: "string \<Rightarrow> jsval list \<Rightarrow> world \<Rightarrow> (error + unit) \<times> world" where
  \<comment> \<open>\<^verbatim>\<open>api.records.insert\<close>: the new rows go after the rows the sheet has\<close>
  "records_insert sheet vs w =
     (case sheets w sheet of
        None \<Rightarrow> (Inl ApiError, w)
      | Some rs \<Rightarrow> (Inr (), w\<lparr>sheets := (sheets w)(sheet \<mapsto> rs @ map new_record vs)\<rparr>))"

definition getRecordsAsCsv :: "world \<Rightarrow> string \<Rightarrow> error + jsstring" where
  "getRecordsAsCsv w sheet =
     (case sheets w sheet of None \<Rightarrow> Inl ApiError | Some rs \<Rightarrow> Inr (csv_of w rs))"

definition sendMail :: "mail \<Rightarrow> world \<Rightarrow> (error + unit) \<times> world" where
  \<comment> \<open>the call of the mail transport: logged, then accepted or refused by the relay\<close>
  "sendMail m w =
     (if relay_accepts w (auth_user m) (auth_pass m) then Inr () else Inl MailError,
      w\<lparr>outbox := outbox w @ [m]\<rparr>)"

definition job_completed :: "string \<Rightarrow> world \<Rightarrow> (error + unit) \<times> world" where
  "job_completed workbookId w =
     (case event_secrets w ''email'' of
        Inl e \<Rightarrow> (Inl e, w)
      | Inr email \<Rightarrow>
     (case event_secrets w ''password'' of
        Inl e \<Rightarrow> (Inl e, w)
      | Inr password \<Rightarrow>
     (case workbooks_get w workbookId of
        Inl e \<Rightarrow> (Inl e, w)
      | Inr data_sheets \<Rightarrow>
     (case sheet_id_at data_sheets 0 of
        Inl e \<Rightarrow> (Inl e, w)
      | Inr inventorySheet \<Rightarrow>
     (case sheet_id_at data_sheets 1 of
        Inl e \<Rightarrow> (Inl e, w)
      | Inr orderSheet \<Rightarrow>
     (case records_get w inventorySheet of
        Inl e \<Rightarrow> (Inl e, w)
      | Inr currentInventory \<Rightarrow>
     (case purchaseInventory currentInventory of
        Inl e \<Rightarrow> (Inl e, w)
      | Inr purchaseInventory_lines \<Rightarrow>
     (case purchaseOrder purchaseInventory_lines of
        Inl e \<Rightarrow> (Inl e, w)
      | Inr purchaseOrder_lines \<Rightarrow>
     (case records_insert orderSheet purchaseOrder_lines w of
        (Inl e, w1) \<Rightarrow> (Inl e, w1)
      | (Inr _, w1) \<Rightarrow>
     (case getRecordsAsCsv w1 orderSheet of
        Inl e \<Rightarrow> (Inl e, w1)
      | Inr csv \<Rightarrow>
          sendMail
            \<lparr>auth_user = email, auth_pass = password, mail_from = email,
             mail_to = cp ''warehouse@books.com'', subject = cp ''Purchase Order'',
             body = cp ''Attached'', attachments = [(cp ''orders.csv'', csv)]\<rparr>
            w1))))))))))"

section \<open>Definitions used to state the properties\<close>

text \<open>
  An engine cut down to the letters of Basic Latin; it only serves to run the validator
  on concrete rows.
\<close>

definition basic_latin :: runtime where
  "basic_latin =
     \<lparr>unicode_letter = (\<lambda>c. (65 \<le> c \<and> c \<le> 90) \<or> (97 \<le> c \<and> c \<le> 122)),
      number_to_string = (\<lambda>n. cp ''NaN'')\<rparr>"

text \<open>
  The well-formed author in the words of the specification: optional whitespace, a
  surname of letters, apostrophes and hyphens, a comma, optional whitespace, a given name
  of the same class, optional trailing whitespace.
\<close>

definition spec_well_formed :: "runtime \<Rightarrow> jsstring \<Rightarrow> bool" where
  "spec_well_formed rt s \<longleftrightarrow>
     (\<exists>w1 sur w2 giv w3.
        s = w1 @ sur @ [44] @ w2 @ giv @ w3
        \<and> (\<forall>c\<in>set w1. is_space c)
        \<and> sur \<noteq> [] \<and> (\<forall>c\<in>set sur. name_char rt c)
        \<and> (\<forall>c\<in>set w2. is_space c)
        \<and> giv \<noteq> [] \<and> (\<forall>c\<in>set giv. name_char rt c)
        \<and> (\<forall>c\<in>set w3. is_space c))"

text \<open>
  A value that is a non-negative integer Number.
\<close>

definition nonneg_integer :: "jsval \<Rightarrow> bool" where
  "nonneg_integer v =
     (case v of
        JNum x \<Rightarrow> (case x of Fin q \<Rightarrow> 0 \<le> q \<and> of_int \<lfloor>q\<rfloor> = q | _ \<Rightarrow> False)
      | _ \<Rightarrow> False)"

text \<open>
  A Number that is a finite integer.
\<close>

definition integer_number :: "jsnum \<Rightarrow> bool" where
  "integer_number x = (case x of Fin q \<Rightarrow> of_int \<lfloor>q\<rfloor> = q | _ \<Rightarrow> False)"

text \<open>
  Rows and a platform state to run the transformer on: a row of the inventory sheet with
  a given value in its stock cell, the line derived from it, a row that has no stock
  cell, and a workbook with an inventory sheet of two rows (stock 1 and stock 5) and an
  empty order sheet.
\<close>

definition item_without_stock :: jsval where
  "item_without_stock =
     JObj [(''id'', JStr (cp ''us_rc_2'')),
           (''values'', JObj [(''title'', JObj [(''value'', JStr (cp ''Emma''))])])]"

definition item_with_stock :: "jsval \<Rightarrow> jsval" where
  "item_with_stock v =
     JObj [(''id'', JStr (cp ''us_rc_1'')),
           (''values'', JObj [(''title'', JObj [(''value'', JStr (cp ''Dune''))]),
                              (''stock'', JObj [(''value'', v)])])]"

definition line_with_purchase :: "jsnum \<Rightarrow> jsval" where
  "line_with_purchase q =
     JObj [(''title'', JObj [(''value'', JStr (cp ''Dune''))]),
           (''purchase'', JObj [(''value'', JNum q), (''valid'', JBool True)])]"

definition example_world :: world where
  "example_world =
     \<lparr>secret_store = [''email'' \<mapsto> cp ''shop@books.com'', ''password'' \<mapsto> cp ''hunter2''],
      workbooks = [''wb_1'' \<mapsto> [''sh_inventory'', ''sh_orders'']],
      sheets = [''sh_inventory'' \<mapsto> [item_with_stock (JNum (Fin 1)), item_with_stock (JNum (Fin 5))],
                ''sh_orders'' \<mapsto> []],
      csv_of = (\<lambda>rs. []),
      relay_accepts = (\<lambda>u p. True),
      outbox = []\<rparr>"

section \<open>The pattern decides its language\<close>

lemma lang_alt: "lang (alt a b) = lang a \<union> lang b"
  by (cases a; cases b) (simp_all add: alt_def)

lemma lang_conc: "lang (conc a b) = lang (Conc a b)"
  by (cases a; cases b) (auto simp: conc_def)

lemma nullable_iff: "nullable r \<longleftrightarrow> [] \<in> lang r"
  by (induction r) (auto intro: star.star_nil)

lemma star_Cons_split:
  assumes "x \<in> star A" and "x = c # w"
  shows "\<exists>u v. w = u @ v \<and> c # u \<in> A \<and> v \<in> star A"
  using assms
proof (induction arbitrary: w rule: star.induct)
  case star_nil
  then show ?case by simp
next
  case (star_app u v)
  show ?case
  proof (cases u)
    case Nil
    with star_app show ?thesis by simp
  next
    case (Cons a u')
    with star_app.prems have "a = c" and "w = u' @ v" by simp_all
    with star_app.hyps Cons show ?thesis by blast
  qed
qed

lemma star_Cons_iff:
  "c # w \<in> star A \<longleftrightarrow> (\<exists>u v. w = u @ v \<and> c # u \<in> A \<and> v \<in> star A)"
proof
  assume "c # w \<in> star A"
  then show "\<exists>u v. w = u @ v \<and> c # u \<in> A \<and> v \<in> star A"
    by (rule star_Cons_split) simp
next
  assume "\<exists>u v. w = u @ v \<and> c # u \<in> A \<and> v \<in> star A"
  then obtain u v where "w = u @ v" "c # u \<in> A" "v \<in> star A" by blast
  then have "(c # u) @ v \<in> star A" by (intro star.star_app)
  with \<open>w = u @ v\<close> show "c # w \<in> star A" by simp
qed

lemma lang_deriv: "lang (deriv c r) = {w. c # w \<in> lang r}"
proof (induction r)
  case (Conc a b)
  then show ?case
    by (auto simp: lang_alt lang_conc nullable_iff Cons_eq_append_conv)
next
  case (Many a)
  then show ?case
    by (auto simp: lang_conc star_Cons_iff)
qed (auto simp: lang_alt)

lemma matches_iff: "matches r s \<longleftrightarrow> s \<in> lang r"
  by (induction s arbitrary: r) (simp_all add: nullable_iff lang_deriv)

section \<open>The record validator: properties\<close>

lemma star_class: "w \<in> star {[c] | c. p c} \<longleftrightarrow> (\<forall>c\<in>set w. p c)"
proof
  assume "w \<in> star {[c] | c. p c}"
  then show "\<forall>c\<in>set w. p c"
    by (induction rule: star.induct) auto
next
  assume "\<forall>c\<in>set w. p c"
  then show "w \<in> star {[c] | c. p c}"
  proof (induction w)
    case Nil
    show ?case by (rule star.star_nil)
  next
    case (Cons a w)
    then have "[a] \<in> {[c] | c. p c}" and "w \<in> star {[c] | c. p c}" by simp_all
    then have "[a] @ w \<in> star {[c] | c. p c}" by (rule star.star_app)
    then show ?case by simp
  qed
qed

lemma in_lang_Many_Class: "w \<in> lang (Many (Class p)) \<longleftrightarrow> (\<forall>c\<in>set w. p c)"
  by (simp add: star_class)

lemma in_lang_ConcI: "u \<in> lang a \<Longrightarrow> v \<in> lang b \<Longrightarrow> u @ v \<in> lang (Conc a b)"
  by auto

lemma in_lang_ConcD:
  "w \<in> lang (Conc a b) \<Longrightarrow> \<exists>u v. w = u @ v \<and> u \<in> lang a \<and> v \<in> lang b"
  by auto

lemma in_lang_some_Class: "w \<in> lang (some (Class p)) \<longleftrightarrow> w \<noteq> [] \<and> (\<forall>c\<in>set w. p c)"
proof
  assume "w \<in> lang (some (Class p))"
  then obtain c v where "w = [c] @ v" "p c" "v \<in> star {[c] | c. p c}"
    by (auto simp: some_def)
  then show "w \<noteq> [] \<and> (\<forall>c\<in>set w. p c)"
    by (auto simp: star_class)
next
  assume a: "w \<noteq> [] \<and> (\<forall>c\<in>set w. p c)"
  then obtain c v where w: "w = c # v" by (cases w) auto
  with a have "p c" "v \<in> star {[c] | c. p c}" by (simp_all add: star_class)
  then have "[c] @ v \<in> lang (Conc (Class p) (Many (Class p)))"
    by (intro in_lang_ConcI) simp_all
  then show "w \<in> lang (some (Class p))"
    by (simp add: some_def w)
qed

lemma in_lang_pattern:
  "s \<in> lang (pattern rt) \<longleftrightarrow>
     (\<exists>w1 sur w2 w3 giv w4.
        s = w1 @ sur @ w2 @ [44] @ w3 @ giv @ w4
        \<and> (\<forall>c\<in>set w1. is_space c)
        \<and> sur \<noteq> [] \<and> (\<forall>c\<in>set sur. name_char rt c)
        \<and> (\<forall>c\<in>set w2. is_space c)
        \<and> (\<forall>c\<in>set w3. is_space c)
        \<and> giv \<noteq> [] \<and> (\<forall>c\<in>set giv. name_char rt c)
        \<and> (\<forall>c\<in>set w4. is_space c))"
  (is "?l \<longleftrightarrow> ?r")
proof
  assume ?l
  then obtain w1 t1 where 1: "s = w1 @ t1" "w1 \<in> lang (Many (Class is_space))"
    and "t1 \<in> lang (Conc (some (Class (name_char rt)))
          (Conc (Many (Class is_space))
             (Conc (Class (\<lambda>c. c = 44))
                (Conc (Many (Class is_space))
                   (Conc (some (Class (name_char rt)))
                      (Many (Class is_space)))))))"
    unfolding pattern_def by (blast dest: in_lang_ConcD)
  then obtain sur t2 where 2: "t1 = sur @ t2" "sur \<in> lang (some (Class (name_char rt)))"
    and "t2 \<in> lang (Conc (Many (Class is_space))
             (Conc (Class (\<lambda>c. c = 44))
                (Conc (Many (Class is_space))
                   (Conc (some (Class (name_char rt)))
                      (Many (Class is_space))))))"
    by (blast dest: in_lang_ConcD)
  then obtain w2 t3 where 3: "t2 = w2 @ t3" "w2 \<in> lang (Many (Class is_space))"
    and "t3 \<in> lang (Conc (Class (\<lambda>c. c = 44))
                (Conc (Many (Class is_space))
                   (Conc (some (Class (name_char rt)))
                      (Many (Class is_space)))))"
    by (blast dest: in_lang_ConcD)
  then obtain k t4 where 4: "t3 = k @ t4" "k \<in> lang (Class (\<lambda>c. c = 44))"
    and "t4 \<in> lang (Conc (Many (Class is_space))
                   (Conc (some (Class (name_char rt)))
                      (Many (Class is_space))))"
    by (blast dest: in_lang_ConcD)
  then obtain w3 t5 where 5: "t4 = w3 @ t5" "w3 \<in> lang (Many (Class is_space))"
    and "t5 \<in> lang (Conc (some (Class (name_char rt))) (Many (Class is_space)))"
    by (blast dest: in_lang_ConcD)
  then obtain giv w4 where 6: "t5 = giv @ w4" "giv \<in> lang (some (Class (name_char rt)))"
    "w4 \<in> lang (Many (Class is_space))"
    by (blast dest: in_lang_ConcD)
  from 4 have k: "k = [44]" by simp
  from 1 2 3 4 5 6 k
  have "s = w1 @ sur @ w2 @ [44] @ w3 @ giv @ w4
        \<and> (\<forall>c\<in>set w1. is_space c)
        \<and> sur \<noteq> [] \<and> (\<forall>c\<in>set sur. name_char rt c)
        \<and> (\<forall>c\<in>set w2. is_space c)
        \<and> (\<forall>c\<in>set w3. is_space c)
        \<and> giv \<noteq> [] \<and> (\<forall>c\<in>set giv. name_char rt c)
        \<and> (\<forall>c\<in>set w4. is_space c)"
    unfolding in_lang_Many_Class in_lang_some_Class by auto
  then show ?r by blast
next
  assume ?r
  then obtain w1 sur w2 w3 giv w4 where s: "s = w1 @ sur @ w2 @ [44] @ w3 @ giv @ w4"
    and h: "w1 \<in> lang (Many (Class is_space))" "sur \<in> lang (some (Class (name_char rt)))"
    "w2 \<in> lang (Many (Class is_space))"
    "w3 \<in> lang (Many (Class is_space))" "giv \<in> lang (some (Class (name_char rt)))"
    "w4 \<in> lang (Many (Class is_space))"
    unfolding in_lang_Many_Class in_lang_some_Class by blast
  have k: "[44] \<in> lang (Class (\<lambda>c. c = 44))" by simp
  show ?l
    unfolding pattern_def s
    by (intro in_lang_ConcI h k)
qed

lemma spec_well_formed_matches:
  assumes "spec_well_formed rt s"
  shows "validateNameFormat rt (JStr s) = Inr True"
proof -
  from assms obtain w1 sur w2 giv w3 where
    s: "s = w1 @ sur @ [44] @ w2 @ giv @ w3" and
    h: "\<forall>c\<in>set w1. is_space c" "sur \<noteq> []" "\<forall>c\<in>set sur. name_char rt c"
    "\<forall>c\<in>set w2. is_space c" "giv \<noteq> []" "\<forall>c\<in>set giv. name_char rt c"
    "\<forall>c\<in>set w3. is_space c"
    unfolding spec_well_formed_def by blast
  have s': "s = w1 @ sur @ [] @ [44] @ w2 @ giv @ w3"
    using s by simp
  have e: "\<forall>c\<in>set ([] :: jsstring). is_space c"
    by simp
  have "s \<in> lang (pattern rt)"
    unfolding in_lang_pattern using s' h e by blast
  then show ?thesis
    by (simp add: validateNameFormat_def matches_iff to_string_def)
qed

lemma hook_noop_on_match:
  "validateNameFormat rt (record_get r ''author'') = Inr True
     \<Longrightarrow> recordHook_customers rt r = Inr (None, r)"
  by (simp add: recordHook_customers_def)

text \<open>
  Claim C6. A row whose author is a string of the well-formed shape (optional whitespace,
  a surname token, a comma, optional whitespace, a given-name token, optional trailing
  whitespace) passes the test of the pattern, so the hook returns nothing and leaves the
  row as it was: same values, same messages.
\<close>

theorem validator_noop_on_well_formed:
  assumes "record_get r ''author'' = JStr s" and "spec_well_formed rt s"
  shows "recordHook_customers rt r = Inr (None, r)"
  using assms by (simp add: hook_noop_on_match spec_well_formed_matches)

lemma split_on_no_sep: "sep \<notin> set s \<Longrightarrow> split_on sep s = [s]"
  by (induction s) auto

lemma split_on_first: "sep \<notin> set g \<Longrightarrow> split_on sep (g @ sep # rest) = g # split_on sep rest"
  by (induction g) auto

lemma record_get_has_field: "record_get r f = JStr s \<Longrightarrow> has_field r f"
  by (auto simp: record_get_def has_field_def split: option.splits)

lemma unwrap_write_through: "unwrap (write_through old (JStr s)) = JStr s"
  by (cases old) (simp_all add: unwrap_def write_through_def update_conv')

lemma record_get_set_string:
  "has_field r f \<Longrightarrow> record_get (record_set r f (JStr s)) f = JStr s"
  by (auto simp: has_field_def record_get_def record_set_def update_conv' unwrap_write_through)

lemma record_get_set_other: "g \<noteq> f \<Longrightarrow> record_get (record_set r f v) g = record_get r g"
  by (simp add: record_get_def record_set_def update_conv' split: option.splits)

lemma has_field_set: "has_field (record_set r f v) g = has_field r g"
  by (auto simp: has_field_def record_set_def update_conv' split: option.splits)

lemma info_set: "info (record_set r f v) = info r"
  by (simp add: record_set_def split: option.splits)

lemma template_pieces:
  "template rt (JStr a) (JStr b) = Inr (a @ cp '', '' @ b)"
  "template rt JUndefined (JStr b) = Inr (cp ''undefined'' @ cp '', '' @ b)"
  by (simp_all add: template_def to_string_def)

lemma hook_rewrite:
  assumes "record_get r ''author'' = JStr s" and "validateNameFormat rt (JStr s) = Inr False"
    and "template rt (element (split_on 32 s) 1) (element (split_on 32 s) 0) = Inr rewritten"
  shows "recordHook_customers rt r =
           (let r' = record_addComment (record_set r ''author'' (JStr rewritten))
                       ''author'' (cp ''Author name was updated for vendor'')
            in Inr (Some r', r'))"
  using assms by (simp add: recordHook_customers_def js_split_def Let_def)

lemma comment_after_set:
  assumes "has_field r f"
  shows "record_get (record_addComment (record_set r f v) f msg) g = record_get (record_set r f v) g"
    and "info (record_addComment (record_set r f v) f msg) = info r @ [(f, msg)]"
proof -
  have h: "has_field (record_set r f v) f"
    using assms by (simp add: has_field_set)
  show "record_get (record_addComment (record_set r f v) f msg) g = record_get (record_set r f v) g"
    using h by (simp add: record_addComment_def record_get_def)
  show "info (record_addComment (record_set r f v) f msg) = info r @ [(f, msg)]"
    using h by (simp add: record_addComment_def info_set)
qed

text \<open>
  Claim C7. When the author is a string of two pieces with one space between them and
  the pattern does not match it, the hook returns the row with the author rewritten to
  the second piece, a comma, a space and the first piece; exactly one message is added,
  on the field author, and no other field changes.
\<close>

theorem validator_swaps_two_tokens:
  assumes "record_get r ''author'' = JStr (given @ 32 # surname)"
    and "32 \<notin> set given" and "32 \<notin> set surname"
    and "validateNameFormat rt (JStr (given @ 32 # surname)) = Inr False"
  shows "\<exists>r'. recordHook_customers rt r = Inr (Some r', r')
           \<and> record_get r' ''author'' = JStr (surname @ cp '', '' @ given)
           \<and> info r' = info r @ [(''author'', cp ''Author name was updated for vendor'')]
           \<and> (\<forall>f. f \<noteq> ''author'' \<longrightarrow> record_get r' f = record_get r f)"
proof -
  have hf: "has_field r ''author''"
    using assms(1) by (rule record_get_has_field)
  have sp: "split_on 32 (given @ 32 # surname) = [given, surname]"
    using assms(2,3) by (simp add: split_on_first split_on_no_sep)
  have el: "template rt (element (split_on 32 (given @ 32 # surname)) 1)
              (element (split_on 32 (given @ 32 # surname)) 0)
              = Inr (surname @ cp '', '' @ given)"
    unfolding sp by (simp add: element_def template_pieces)
  show ?thesis
    unfolding hook_rewrite[OF assms(1,4) el] Let_def
    using hf by (simp add: comment_after_set record_get_set_string record_get_set_other)
qed

text \<open>
  Claim C8. When the author is a string without a space and the pattern does not match
  it, the split has one piece only, the missing second piece is \<^verbatim>\<open>undefined\<close>, and the
  rewritten author is the word \<^verbatim>\<open>undefined\<close>, a comma, a space and the original string.
\<close>

theorem validator_single_token_undefined:
  assumes "record_get r ''author'' = JStr s"
    and "32 \<notin> set s"
    and "validateNameFormat rt (JStr s) = Inr False"
  shows "\<exists>r'. recordHook_customers rt r = Inr (Some r', r')
           \<and> record_get r' ''author'' = JStr (cp ''undefined, '' @ s)"
proof -
  have hf: "has_field r ''author''"
    using assms(1) by (rule record_get_has_field)
  have sp: "split_on 32 s = [s]"
    using assms(2) by (rule split_on_no_sep)
  have u: "cp ''undefined'' @ cp '', '' @ s = cp ''undefined, '' @ s"
    by (simp add: cp_def)
  have el: "template rt (element (split_on 32 s) 1) (element (split_on 32 s) 0)
              = Inr (cp ''undefined, '' @ s)"
    unfolding sp by (simp add: element_def template_pieces u)
  show ?thesis
    unfolding hook_rewrite[OF assms(1,3) el] Let_def
    using hf by (simp add: comment_after_set record_get_set_string)
qed

text \<open>
  Claim C10. The author of a row is what \<^verbatim>\<open>get\<close> answers for the field: \<^verbatim>\<open>null\<close> when
  the row has no such field, the stored value, or what a stored object holds under
  \<^verbatim>\<open>value\<close>. When that is not a string and the test of the pattern on it answers
  false, the call of \<^verbatim>\<open>split\<close> throws a TypeError: the hook neither returns a row nor
  ends quietly.
\<close>

theorem validator_throws_on_non_string:
  assumes "\<forall>s. record_get r ''author'' \<noteq> JStr s"
    and "validateNameFormat rt (record_get r ''author'') = Inr False"
  shows "recordHook_customers rt r = Inl TypeError"
  using assms
  by (cases "record_get r ''author''") (simp_all add: recordHook_customers_def js_split_def)

text \<open>
  When the test itself throws (the author is an object that cannot be converted to a
  string), the hook throws that error. A row without the field author throws at
  \<^verbatim>\<open>split\<close> whatever the engine's tables: the string \<^verbatim>\<open>null\<close> has no comma. An author stored
  as an object with a string under \<^verbatim>\<open>value\<close> is read as that string and is not such a
  case.
\<close>

lemma hook_throws_with_test:
  "validateNameFormat rt (record_get r ''author'') = Inl e \<Longrightarrow> recordHook_customers rt r = Inl e"
  by (simp add: recordHook_customers_def)

lemma null_never_matches: "validateNameFormat rt JNull = Inr False"
proof -
  have "cp ''null'' \<notin> lang (pattern rt)"
  proof
    assume "cp ''null'' \<in> lang (pattern rt)"
    then obtain w1 sur w2 w3 giv w4 where "cp ''null'' = w1 @ sur @ w2 @ [44] @ w3 @ giv @ w4"
      unfolding in_lang_pattern by blast
    then have "44 \<in> set (cp ''null'')"
      by simp
    then show False
      by (simp add: cp_def)
  qed
  then show ?thesis
    by (simp add: validateNameFormat_def matches_iff to_string_def)
qed

lemma absent_author_throws:
  assumes "\<not> has_field r ''author''"
  shows "recordHook_customers rt r = Inl TypeError"
proof -
  from assms have "record_get r ''author'' = JNull"
    by (simp add: has_field_def record_get_def)
  then show ?thesis
    by (simp add: recordHook_customers_def null_never_matches js_split_def)
qed

lemma wrapped_author_is_read_through:
  "record_get \<lparr>data = [(''author'', JObj [(''value'', JStr s)])], info = []\<rparr> ''author'' = JStr s"
  by (simp add: record_get_def unwrap_def)

subsection \<open>The validator on concrete rows\<close>

lemmas run_pattern = validateNameFormat_def pattern_def some_def to_string_def cp_def alt_def
  conc_def is_space_def name_char_def basic_latin_def

theorem validator_noop_on_well_formed_witness:
  "record_get \<lparr>data = [(''author'', JStr (cp ''Smith, John''))], info = []\<rparr> ''author''
     = JStr (cp ''Smith, John'')
   \<and> spec_well_formed basic_latin (cp ''Smith, John'')
   \<and> recordHook_customers basic_latin \<lparr>data = [(''author'', JStr (cp ''Smith, John''))], info = []\<rparr>
     = Inr (None, \<lparr>data = [(''author'', JStr (cp ''Smith, John''))], info = []\<rparr>)"
proof -
  have h1: "record_get \<lparr>data = [(''author'', JStr (cp ''Smith, John''))], info = []\<rparr> ''author''
     = JStr (cp ''Smith, John'')"
    by (simp add: record_get_def unwrap_def)
  have "cp ''Smith, John'' = [] @ cp ''Smith'' @ [44] @ [32] @ cp ''John'' @ []
        \<and> (\<forall>c\<in>set ([] :: jsstring). is_space c)
        \<and> cp ''Smith'' \<noteq> [] \<and> (\<forall>c\<in>set (cp ''Smith''). name_char basic_latin c)
        \<and> (\<forall>c\<in>set [32]. is_space c)
        \<and> cp ''John'' \<noteq> [] \<and> (\<forall>c\<in>set (cp ''John''). name_char basic_latin c)
        \<and> (\<forall>c\<in>set ([] :: jsstring). is_space c)"
    by (simp add: cp_def is_space_def name_char_def basic_latin_def)
  then have h2: "spec_well_formed basic_latin (cp ''Smith, John'')"
    unfolding spec_well_formed_def by blast
  from h1 h2 validator_noop_on_well_formed[OF h1 h2] show ?thesis
    by (intro conjI)
qed

theorem validator_swaps_two_tokens_witness:
  "record_get \<lparr>data = [(''author'', JStr (cp ''John'' @ 32 # cp ''Smith''))], info = []\<rparr> ''author''
     = JStr (cp ''John'' @ 32 # cp ''Smith'')
   \<and> 32 \<notin> set (cp ''John'') \<and> 32 \<notin> set (cp ''Smith'')
   \<and> validateNameFormat basic_latin (JStr (cp ''John'' @ 32 # cp ''Smith'')) = Inr False
   \<and> (\<exists>r'. recordHook_customers basic_latin
               \<lparr>data = [(''author'', JStr (cp ''John'' @ 32 # cp ''Smith''))], info = []\<rparr>
             = Inr (Some r', r')
           \<and> record_get r' ''author'' = JStr (cp ''Smith, John'')
           \<and> info r' = [(''author'', cp ''Author name was updated for vendor'')])"
proof -
  have h1: "record_get \<lparr>data = [(''author'', JStr (cp ''John'' @ 32 # cp ''Smith''))], info = []\<rparr>
      ''author'' = JStr (cp ''John'' @ 32 # cp ''Smith'')"
    by (simp add: record_get_def unwrap_def)
  have h2: "32 \<notin> set (cp ''John'')" and h3: "32 \<notin> set (cp ''Smith'')"
    by (simp_all add: cp_def)
  have h4: "validateNameFormat basic_latin (JStr (cp ''John'' @ 32 # cp ''Smith'')) = Inr False"
    by (simp add: run_pattern)
  have e: "cp ''Smith'' @ cp '', '' @ cp ''John'' = cp ''Smith, John''"
    by (simp add: cp_def)
  from validator_swaps_two_tokens[OF h1 h2 h3 h4] have
    "\<exists>r'. recordHook_customers basic_latin
               \<lparr>data = [(''author'', JStr (cp ''John'' @ 32 # cp ''Smith''))], info = []\<rparr>
             = Inr (Some r', r')
           \<and> record_get r' ''author'' = JStr (cp ''Smith, John'')
           \<and> info r' = [(''author'', cp ''Author name was updated for vendor'')]"
    unfolding e by auto
  with h1 h2 h3 h4 show ?thesis
    by (intro conjI)
qed

theorem validator_single_token_undefined_witness:
  "record_get \<lparr>data = [(''author'', JStr (cp ''Madonna''))], info = []\<rparr> ''author''
     = JStr (cp ''Madonna'')
   \<and> 32 \<notin> set (cp ''Madonna'')
   \<and> validateNameFormat basic_latin (JStr (cp ''Madonna'')) = Inr False
   \<and> (\<exists>r'. recordHook_customers basic_latin
               \<lparr>data = [(''author'', JStr (cp ''Madonna''))], info = []\<rparr>
             = Inr (Some r', r')
           \<and> record_get r' ''author'' = JStr (cp ''undefined, Madonna''))"
proof -
  have h1: "record_get \<lparr>data = [(''author'', JStr (cp ''Madonna''))], info = []\<rparr> ''author''
     = JStr (cp ''Madonna'')"
    by (simp add: record_get_def unwrap_def)
  have h2: "32 \<notin> set (cp ''Madonna'')"
    by (simp add: cp_def)
  have h3: "validateNameFormat basic_latin (JStr (cp ''Madonna'')) = Inr False"
    by (simp add: run_pattern)
  have e: "cp ''undefined, '' @ cp ''Madonna'' = cp ''undefined, Madonna''"
    by (simp add: cp_def)
  from validator_single_token_undefined[OF h1 h2 h3] have
    "\<exists>r'. recordHook_customers basic_latin
               \<lparr>data = [(''author'', JStr (cp ''Madonna''))], info = []\<rparr>
             = Inr (Some r', r')
           \<and> record_get r' ''author'' = JStr (cp ''undefined, Madonna'')"
    unfolding e .
  with h1 h2 h3 show ?thesis
    by (intro conjI)
qed

theorem validator_throws_on_non_string_witness:
  "(\<forall>s. record_get \<lparr>data = [(''title'', JStr (cp ''Dune''))], info = []\<rparr> ''author'' \<noteq> JStr s)
   \<and> validateNameFormat basic_latin
         (record_get \<lparr>data = [(''title'', JStr (cp ''Dune''))], info = []\<rparr> ''author'') = Inr False
   \<and> recordHook_customers basic_latin \<lparr>data = [(''title'', JStr (cp ''Dune''))], info = []\<rparr>
     = Inl TypeError"
proof -
  have g: "record_get \<lparr>data = [(''title'', JStr (cp ''Dune''))], info = []\<rparr> ''author'' = JNull"
    by (simp add: record_get_def unwrap_def)
  have h1: "\<forall>s. record_get \<lparr>data = [(''title'', JStr (cp ''Dune''))], info = []\<rparr> ''author'' \<noteq> JStr s"
    unfolding g by simp
  have h2: "validateNameFormat basic_latin
         (record_get \<lparr>data = [(''title'', JStr (cp ''Dune''))], info = []\<rparr> ''author'') = Inr False"
    unfolding g by (simp add: run_pattern)
  from h1 h2 validator_throws_on_non_string[OF h1 h2] show ?thesis
    by (intro conjI)
qed

section \<open>Rounding to binary64\<close>

lemma round_half_even_of_int: "round_half_even (of_int m) = m"
  by (simp add: round_half_even_def)

lemma round_half_even_nonneg: "0 \<le> x \<Longrightarrow> 0 \<le> round_half_even x"
  by (auto simp: round_half_even_def Let_def)

lemma bitlen_of_pos: "0 < n \<Longrightarrow> 1 \<le> bitlen n"
  by (simp add: bitlen_def floorlog_def)

lemma floor_log2_of_int:
  assumes "0 < n"
  shows "floor_log2 (of_int n) = bitlen n - 1"
proof -
  have b: "1 \<le> bitlen n" using assms by (rule bitlen_of_pos)
  have "(2::int) ^ nat (bitlen n - 1) \<le> n"
    using bitlen_bounds[OF assms] by simp
  then have "(of_int ((2::int) ^ nat (bitlen n - 1)) :: rat) \<le> of_int n"
    by (simp only: of_int_le_iff)
  then have "power_int (2::rat) (bitlen n - 1) \<le> of_int n"
    using b by (simp add: power_int_def)
  moreover have "bitlen 1 = 1"
    by (simp add: bitlen_alt_def)
  moreover have "quotient_of (of_int n) = (n, 1)"
    using quotient_of_int[of n] by (simp add: Rat.of_int_def)
  ultimately show ?thesis
    by (simp add: floor_log2_def Let_def)
qed

text \<open>
  \<open>floor_log2\<close> is the binary exponent of a positive rational.
\<close>

lemma floor_log2_bounds:
  assumes "0 < a"
  shows "power_int 2 (floor_log2 a) \<le> a \<and> a < power_int 2 (floor_log2 a + 1)"
proof -
  obtain p d where pd: "quotient_of a = (p, d)" by (cases "quotient_of a")
  then have d0: "0 < d" by (rule quotient_of_denom_pos)
  from pd have a: "a = of_int p / of_int d" by (rule quotient_of_div)
  with assms d0 have p0: "0 < p" by (simp add: zero_less_divide_iff)
  define bp where "bp = bitlen p"
  define bd where "bd = bitlen d"
  have bp1: "1 \<le> bp" and bd1: "1 \<le> bd"
    using p0 d0 by (simp_all add: bp_def bd_def bitlen_of_pos)
  from bitlen_bounds[OF p0] have "(2::int) ^ nat (bp - 1) \<le> p" "p < 2 ^ nat bp"
    by (simp_all add: bp_def)
  then have "(of_int ((2::int) ^ nat (bp - 1)) :: rat) \<le> of_int p"
    and "(of_int p :: rat) < of_int (2 ^ nat bp)"
    by (simp_all only: of_int_le_iff of_int_less_iff)
  then have p: "power_int (2::rat) (bp - 1) \<le> of_int p" "of_int p < power_int (2::rat) bp"
    using bp1 by (simp_all add: power_int_def)
  from bitlen_bounds[OF d0] have "(2::int) ^ nat (bd - 1) \<le> d" "d < 2 ^ nat bd"
    by (simp_all add: bd_def)
  then have "(of_int ((2::int) ^ nat (bd - 1)) :: rat) \<le> of_int d"
    and "(of_int d :: rat) < of_int (2 ^ nat bd)"
    by (simp_all only: of_int_le_iff of_int_less_iff)
  then have d: "power_int (2::rat) (bd - 1) \<le> of_int d" "of_int d < power_int (2::rat) bd"
    using bd1 by (simp_all add: power_int_def)
  have dpos: "(0::rat) < of_int d" using d0 by simp
  have up: "a < power_int 2 (bp - bd + 1)"
  proof -
    have "of_int p < power_int (2::rat) (bp - bd + 1) * power_int 2 (bd - 1)"
      using p(2) by (simp add: power_int_add[symmetric])
    also have "\<dots> \<le> power_int 2 (bp - bd + 1) * of_int d"
      using d(1) by (intro mult_left_mono) simp_all
    finally show ?thesis
      using dpos by (simp add: a pos_divide_less_eq)
  qed
  have lo: "power_int 2 (bp - bd - 1) < a"
  proof -
    have "power_int (2::rat) (bp - bd - 1) * of_int d < power_int 2 (bp - bd - 1) * power_int 2 bd"
      using d(2) by (intro mult_strict_left_mono) simp_all
    also have "\<dots> = power_int 2 (bp - 1)"
      by (simp add: power_int_add[symmetric])
    also have "\<dots> \<le> of_int p" by (rule p(1))
    finally show ?thesis
      using dpos by (simp add: a pos_less_divide_eq)
  qed
  have f: "floor_log2 a = (if power_int 2 (bp - bd) \<le> a then bp - bd else bp - bd - 1)"
    by (simp add: floor_log2_def pd bp_def bd_def Let_def)
  show ?thesis
  proof (cases "power_int 2 (bp - bd) \<le> a")
    case True
    with up f show ?thesis by simp
  next
    case False
    with lo f show ?thesis by simp
  qed
qed

lemma round_binary64_unfold:
  assumes "q \<noteq> 0"
    and "e = max (floor_log2 \<bar>q\<bar> - 52) (- 1074)"
    and "r = of_int (round_half_even (\<bar>q\<bar> / power_int 2 e)) * power_int 2 e"
  shows "round_binary64 q =
           (if overflows r then (if q < 0 then NInf else PInf)
            else Fin (if q < 0 then - r else r))"
  using assms by (simp add: round_binary64_def Let_def)

lemma round_binary64_of_int_pos:
  assumes "0 < n" and "n < 2 ^ 53"
  shows "round_binary64 (of_int n) = Fin (of_int n)"
proof -
  define k where "k = bitlen n - 1"
  have k0: "0 \<le> k" using bitlen_of_pos[OF assms(1)] by (simp add: k_def)
  have "(2::int) ^ nat k \<le> n" using bitlen_bounds[OF assms(1)] by (simp add: k_def)
  with assms(2) have "(2::int) ^ nat k < 2 ^ 53" by simp
  then have "nat k < 53" by (simp only: power_strict_increasing_iff[of 2])
  with k0 have k52: "k \<le> 52" by simp
  define j where "j = nat (52 - k)"
  have e: "max (floor_log2 (of_int n) - 52) (- 1074) = - int j"
    using k0 k52 by (simp add: floor_log2_of_int[OF assms(1)] k_def[symmetric] j_def)
  have p: "power_int (2::rat) (- int j) = 1 / 2 ^ j"
    by (simp add: power_int_def divide_simps)
  have d: "(of_int n :: rat) / power_int 2 (- int j) = of_int (n * 2 ^ j)"
    by (simp add: p)
  have m: "round_half_even ((of_int n :: rat) / power_int 2 (- int j)) = n * 2 ^ j"
    unfolding d by (rule round_half_even_of_int)
  have r: "(of_int (n * 2 ^ j) :: rat) * power_int 2 (- int j) = of_int n"
    by (simp add: p)
  have lt: "(of_int n :: rat) < 2 ^ 1024"
  proof -
    have "n < 2 ^ 1024" using assms(2) by (rule less_trans) simp
    then have "(of_int n :: rat) < of_int (2 ^ 1024)" by (simp only: of_int_less_iff)
    then show ?thesis by simp
  qed
  have a: "\<bar>of_int n :: rat\<bar> = of_int n" using assms(1) by simp
  have q0: "(of_int n :: rat) \<noteq> 0" using assms(1) by simp
  have e': "- int j = max (floor_log2 \<bar>of_int n :: rat\<bar> - 52) (- 1074)"
    unfolding a e ..
  have r': "(of_int n :: rat) =
      of_int (round_half_even (\<bar>of_int n :: rat\<bar> / power_int 2 (- int j))) * power_int 2 (- int j)"
    unfolding a m r ..
  have nl: "\<not> overflows (of_int n)" unfolding overflows_def using lt by (simp only: not_le)
  have nn: "\<not> (of_int n :: rat) < 0" using assms(1) by simp
  show ?thesis
    unfolding round_binary64_unfold[OF q0 e' r'] using nl nn by (simp only: if_False)
qed

lemma round_binary64_neg: "round_binary64 (- q) = js_neg (round_binary64 q)"
  by (simp add: round_binary64_def Let_def)

lemma round_binary64_of_int:
  assumes "\<bar>n\<bar> < 2 ^ 53"
  shows "round_binary64 (of_int n) = Fin (of_int n)"
proof -
  consider "n = 0" | "0 < n" | "n < 0" by linarith
  then show ?thesis
  proof cases
    case 1
    then show ?thesis by (simp add: round_binary64_def)
  next
    case 2
    with assms show ?thesis by (simp add: round_binary64_of_int_pos)
  next
    case 3
    with assms have "0 < - n" "- n < 2 ^ 53" by simp_all
    then have "round_binary64 (of_int (- n)) = Fin (of_int (- n))"
      by (rule round_binary64_of_int_pos)
    then have "js_neg (round_binary64 (of_int n)) = Fin (- of_int n)"
      by (simp add: round_binary64_neg)
    then show ?thesis
      by (cases "round_binary64 (of_int n)") simp_all
  qed
qed

lemma round_binary64_pos:
  assumes "0 < q"
  shows "round_binary64 q = PInf \<or> (\<exists>r. 0 \<le> r \<and> round_binary64 q = Fin r)"
proof -
  define e where "e = max (floor_log2 \<bar>q\<bar> - 52) (- 1074)"
  define r :: rat where "r = of_int (round_half_even (\<bar>q\<bar> / power_int 2 e)) * power_int 2 e"
  have pe: "(0::rat) < power_int 2 e"
    by (rule zero_less_power_int) simp
  then have "0 \<le> \<bar>q\<bar> / power_int 2 e"
    by (intro divide_nonneg_pos) simp_all
  then have "0 \<le> round_half_even (\<bar>q\<bar> / power_int 2 e)"
    by (rule round_half_even_nonneg)
  then have "(0::rat) \<le> of_int (round_half_even (\<bar>q\<bar> / power_int 2 e))"
    by (simp only: of_int_0_le_iff)
  then have r0: "0 \<le> r"
    unfolding r_def using pe by (intro mult_nonneg_nonneg) simp_all
  have q0: "q \<noteq> 0" and nn: "\<not> q < 0" using assms by simp_all
  have u: "round_binary64 q = (if overflows r then PInf else Fin r)"
    unfolding round_binary64_unfold[OF q0 e_def r_def] using nn by (simp only: if_False)
  show ?thesis
  proof (cases "overflows r")
    case True
    with u show ?thesis by simp
  next
    case False
    with u have "round_binary64 q = Fin r" by simp
    with r0 show ?thesis by blast
  qed
qed

text \<open>
  A finite result of the rounding is a binary64 value, an integer of at most 53 bits times
  a power of two from \<open>2 ^ - 1074\<close> up, within half a unit in the last place of the
  exact value.
\<close>

lemma round_half_even_near: "\<bar>of_int (round_half_even x) - x\<bar> \<le> 1 / 2"
proof -
  have "of_int \<lfloor>x\<rfloor> \<le> x" "x < of_int \<lfloor>x\<rfloor> + 1"
    by linarith+
  then show ?thesis
    by (auto simp: round_half_even_def Let_def)
qed

lemma round_half_even_le: "x < of_int n \<Longrightarrow> round_half_even x \<le> n"
proof -
  assume "x < of_int n"
  then have "\<lfloor>x\<rfloor> < n" by (simp add: floor_less_iff)
  then show ?thesis
    by (auto simp: round_half_even_def Let_def)
qed

lemma round_binary64_shape:
  assumes "q \<noteq> 0" and "round_binary64 q = Fin r"
  shows "\<exists>m e. - 1074 \<le> e \<and> \<bar>m\<bar> \<le> 2 ^ 53 \<and> r = of_int m * power_int 2 e
           \<and> \<bar>r - q\<bar> \<le> power_int 2 e / 2"
proof -
  define a where "a = \<bar>q\<bar>"
  define e where "e = max (floor_log2 a - 52) (- 1074)"
  define y where "y = a / power_int 2 e"
  define m where "m = round_half_even y"
  define r' :: rat where "r' = of_int m * power_int 2 e"
  have a0: "0 < a" using assms(1) by (simp add: a_def)
  have pe: "(0::rat) < power_int 2 e" by (rule zero_less_power_int) simp
  have u: "round_binary64 q =
           (if overflows r' then (if q < 0 then NInf else PInf)
            else Fin (if q < 0 then - r' else r'))"
    using assms(1) by (rule round_binary64_unfold) (simp_all add: e_def a_def r'_def m_def y_def)
  with assms(2) have r: "r = (if q < 0 then - r' else r')"
    by (auto split: if_splits)
  have y0: "0 \<le> y" using a0 pe by (simp add: y_def)
  then have m0: "0 \<le> m" unfolding m_def by (rule round_half_even_nonneg)
  have "a < power_int 2 (floor_log2 a + 1)"
    using floor_log2_bounds[OF a0] by simp
  also have "\<dots> \<le> power_int 2 (e + 53)"
    by (rule power_int_increasing) (simp_all add: e_def)
  also have "\<dots> = 2 ^ 53 * power_int 2 e"
    by (simp add: power_int_add)
  finally have "y < 2 ^ 53"
    using pe by (simp add: y_def pos_divide_less_eq)
  then have "y < of_int (2 ^ 53)" by simp
  then have m53: "m \<le> 2 ^ 53" unfolding m_def by (rule round_half_even_le)
  have "\<bar>of_int m - y\<bar> \<le> 1 / 2"
    unfolding m_def by (rule round_half_even_near)
  then have "\<bar>of_int m - y\<bar> * power_int 2 e \<le> 1 / 2 * power_int 2 e"
    using pe by (intro mult_right_mono) simp_all
  moreover have "\<bar>of_int m - y\<bar> * power_int 2 e = \<bar>r' - a\<bar>"
  proof -
    have "\<bar>of_int m - y\<bar> * power_int 2 e = \<bar>(of_int m - y) * power_int 2 e\<bar>"
      using pe by (simp add: abs_mult)
    also have "(of_int m - y) * power_int 2 e = r' - a"
      using pe by (simp add: r'_def y_def algebra_simps)
    finally show ?thesis .
  qed
  ultimately have near: "\<bar>r' - a\<bar> \<le> power_int 2 e / 2"
    by simp
  show ?thesis
  proof (cases "q < 0")
    case True
    with r have "r = of_int (- m) * power_int 2 e" by (simp add: r'_def)
    moreover from True have "\<bar>r - q\<bar> = \<bar>r' - a\<bar>"
      using r by (simp add: a_def)
    moreover have "- 1074 \<le> e" by (simp add: e_def)
    moreover have "\<bar>- m\<bar> \<le> 2 ^ 53" using m0 m53 by simp
    ultimately show ?thesis using near by metis
  next
    case False
    with r have "r = of_int m * power_int 2 e" by (simp add: r'_def)
    moreover from False have "\<bar>r - q\<bar> = \<bar>r' - a\<bar>"
      using r by (simp add: a_def)
    moreover have "- 1074 \<le> e" by (simp add: e_def)
    moreover have "\<bar>m\<bar> \<le> 2 ^ 53" using m0 m53 by simp
    ultimately show ?thesis using near by metis
  qed
qed

lemma math_max_round_zero: "math_max (round_binary64 x) (Fin 0) = round_binary64 (max x 0)"
proof -
  consider "x = 0" | "0 < x" | "x < 0" by linarith
  then show ?thesis
  proof cases
    case 1
    then show ?thesis by (simp add: round_binary64_def)
  next
    case 2
    then have m: "max x 0 = x" by simp
    from round_binary64_pos[OF 2] show ?thesis
      unfolding m by (auto simp: max_def)
  next
    case 3
    then have m: "max x 0 = 0" by simp
    from 3 have "0 < - x" by simp
    from round_binary64_pos[OF this]
    have "round_binary64 x = NInf \<or> (\<exists>r. r \<le> 0 \<and> round_binary64 x = Fin r)"
      unfolding round_binary64_neg by (cases "round_binary64 x") auto
    moreover have "round_binary64 0 = Fin 0" by (simp add: round_binary64_def)
    ultimately show ?thesis
      unfolding m by auto
  qed
qed

text \<open>
  The greatest finite binary64 value is \<open>(2 ^ 53 - 1) * 2 ^ 971\<close>, and a positive number
  rounds to a finite value as long as it is below \<open>(2 ^ 54 - 1) * 2 ^ 970\<close>, half a unit
  in the last place above that. An integer rounds to an integer.
\<close>

lemma round_half_even_le_half: "x < of_int n + 1 / 2 \<Longrightarrow> round_half_even x \<le> n"
proof -
  assume a: "x < of_int n + 1 / 2"
  have f: "of_int \<lfloor>x\<rfloor> \<le> x"
    by linarith
  from a have "x < of_int n + 1"
    by linarith
  then have "\<lfloor>x\<rfloor> \<le> n"
    by (simp add: floor_le_iff)
  then consider "\<lfloor>x\<rfloor> < n" | "\<lfloor>x\<rfloor> = n"
    by linarith
  then show ?thesis
  proof cases
    case 1
    then show ?thesis
      by (auto simp: round_half_even_def Let_def)
  next
    case 2
    with a have "x - of_int \<lfloor>x\<rfloor> < 1 / 2"
      by simp
    with 2 show ?thesis
      by (simp add: round_half_even_def Let_def)
  qed
qed

lemma round_binary64_finite:
  assumes "0 < a" and "a < (2 ^ 54 - 1) * 2 ^ 970"
    and "e = max (floor_log2 a - 52) (- 1074)"
  shows "round_binary64 a = Fin (of_int (round_half_even (a / power_int 2 e)) * power_int 2 e)"
proof -
  define y where "y = a / power_int 2 e"
  define m where "m = round_half_even y"
  define r :: rat where "r = of_int m * power_int 2 e"
  have pe: "(0::rat) < power_int 2 e"
    by (rule zero_less_power_int) simp
  have big: "((2::rat) ^ 54 - 1) * 2 ^ 970 < 2 ^ 1024"
    by simp
  have "power_int 2 (floor_log2 a) \<le> a"
    using floor_log2_bounds[OF assms(1)] by simp
  also have "a < 2 ^ 1024"
    using assms(2) big by (rule less_trans)
  also have "(2::rat) ^ 1024 = power_int 2 1024"
    by simp
  finally have "floor_log2 a < 1024"
    by (rule power_int_le_imp_less_exp[rotated]) simp_all
  then have e971: "e \<le> 971"
    by (simp add: assms(3))
  have "a < power_int 2 (floor_log2 a + 1)"
    using floor_log2_bounds[OF assms(1)] by simp
  also have "\<dots> \<le> power_int 2 (e + 53)"
    by (rule power_int_increasing) (simp_all add: assms(3))
  also have "\<dots> = 2 ^ 53 * power_int 2 e"
    by (simp add: power_int_add)
  finally have "y < 2 ^ 53"
    using pe by (simp add: y_def pos_divide_less_eq)
  then have "y < of_int (2 ^ 53)"
    by simp
  then have m53: "m \<le> 2 ^ 53"
    unfolding m_def by (rule round_half_even_le)
  have small: "r < 2 ^ 1024"
  proof (cases "e = 971")
    case True
    have p: "power_int (2::rat) e = 2 ^ 971"
      unfolding True by simp
    have "y < ((2 ^ 54 - 1) * 2 ^ 970) / 2 ^ 971"
      unfolding y_def p using assms(2) by (rule divide_strict_right_mono) simp
    also have "((2 ^ 54 - 1) * 2 ^ 970) / 2 ^ 971 = (of_int (2 ^ 53 - 1) :: rat) + 1 / 2"
      by simp
    finally have "m \<le> 2 ^ 53 - 1"
      unfolding m_def by (rule round_half_even_le_half)
    then have "(of_int m :: rat) \<le> of_int (2 ^ 53 - 1)"
      by (simp only: of_int_le_iff)
    then have "r \<le> of_int (2 ^ 53 - 1) * 2 ^ 971"
      unfolding r_def p by (rule mult_right_mono) simp
    also have "(of_int (2 ^ 53 - 1) :: rat) * 2 ^ 971 < 2 ^ 1024"
      by simp
    finally show ?thesis .
  next
    case False
    with e971 have e970: "e + 53 \<le> 1023"
      by simp
    from m53 have "(of_int m :: rat) \<le> of_int (2 ^ 53)"
      by (simp only: of_int_le_iff)
    then have "(of_int m :: rat) \<le> 2 ^ 53"
      by simp
    then have "r \<le> 2 ^ 53 * power_int 2 e"
      unfolding r_def using pe by (intro mult_right_mono) simp_all
    also have "\<dots> = power_int 2 (e + 53)"
      by (simp add: power_int_add)
    also have "\<dots> \<le> power_int 2 1023"
      using e970 by (rule power_int_increasing) simp
    also have "power_int (2::rat) 1023 < 2 ^ 1024"
      by simp
    finally show ?thesis .
  qed
  have q0: "a \<noteq> 0" and nn: "\<not> a < 0" and ab: "\<bar>a\<bar> = a"
    using assms(1) by simp_all
  have e': "e = max (floor_log2 \<bar>a\<bar> - 52) (- 1074)"
    unfolding ab by (rule assms(3))
  have r': "r = of_int (round_half_even (\<bar>a\<bar> / power_int 2 e)) * power_int 2 e"
    unfolding ab r_def m_def y_def ..
  have no: "\<not> overflows r"
    unfolding overflows_def using small by (simp only: not_le)
  have "round_binary64 a = Fin r"
    unfolding round_binary64_unfold[OF q0 e' r'] using no nn by (simp only: if_False)
  then show ?thesis
    unfolding r_def m_def y_def .
qed

lemma round_binary64_integer:
  assumes "0 < k" and "(of_int k :: rat) < (2 ^ 54 - 1) * 2 ^ 970"
  shows "\<exists>j. 0 \<le> j \<and> round_binary64 (of_int k) = Fin (of_int j)"
proof (cases "k < 2 ^ 53")
  case True
  with assms(1) have "round_binary64 (of_int k) = Fin (of_int k)"
    by (rule round_binary64_of_int_pos)
  with assms(1) show ?thesis
    by (intro exI[of _ k]) simp
next
  case False
  then have "2 ^ (nat 54 - 1) \<le> k"
    by simp
  then have "54 \<le> bitlen k"
    by (simp only: bitlen_ge_iff_power) simp
  then have e1: "1 \<le> bitlen k - 53"
    by simp
  define i where "i = nat (bitlen k - 53)"
  have e: "int i = max (floor_log2 (of_int k) - 52) (- 1074)"
    using e1 by (simp add: floor_log2_of_int[OF assms(1)] i_def)
  have k0: "(0::rat) < of_int k"
    using assms(1) by simp
  define m where "m = round_half_even ((of_int k :: rat) / power_int 2 (int i))"
  have "(0::rat) \<le> of_int k / power_int 2 (int i)"
    using k0 by simp
  then have m0: "0 \<le> m"
    unfolding m_def by (rule round_half_even_nonneg)
  have "round_binary64 (of_int k) = Fin (of_int m * power_int 2 (int i))"
    unfolding m_def using k0 assms(2) e by (rule round_binary64_finite)
  also have "(of_int m :: rat) * power_int 2 (int i) = of_int (m * 2 ^ i)"
    by simp
  finally have "round_binary64 (of_int k) = Fin (of_int (m * 2 ^ i))" .
  moreover have "0 \<le> m * 2 ^ i"
    using m0 by simp
  ultimately show ?thesis
    by blast
qed

lemma stockOrder_finite: "stockOrder (Fin q) = round_binary64 (max (3 - q) 0)"
  by (simp add: stockOrder_def math_max_round_zero)

lemma math_max_zero_not_negative: "\<not> num_less (math_max x (Fin 0)) (Fin 0)"
  by (cases x) simp_all

lemma stockOrder_not_negative: "\<not> num_less (stockOrder n) (Fin 0)"
  by (simp add: stockOrder_def math_max_zero_not_negative)

lemma stockOrder_integer:
  assumes "\<bar>3 - n\<bar> < 2 ^ 53"
  shows "stockOrder (Fin (of_int n)) = Fin (of_int (max (3 - n) 0))"
proof -
  have "stockOrder (Fin (of_int n)) = round_binary64 (max (3 - of_int n) 0)"
    by (rule stockOrder_finite)
  also have "max (3 - of_int n) (0::rat) = of_int (max (3 - n) 0)"
    by (simp add: max_def)
  also have "round_binary64 (of_int (max (3 - n) 0)) = Fin (of_int (max (3 - n) 0))"
  proof (rule round_binary64_of_int)
    show "\<bar>max (3 - n) 0\<bar> < 2 ^ 53"
      using assms by linarith
  qed
  finally show ?thesis .
qed

lemma stockOrder_special:
  "stockOrder NaN = NaN" "stockOrder PInf = Fin 0" "stockOrder NInf = PInf"
  by (simp_all add: stockOrder_def)

lemma stockOrder_enough: "3 \<le> q \<Longrightarrow> stockOrder (Fin q) = Fin 0"
  by (simp add: stockOrder_finite max_def round_binary64_def)

lemma stockOrder_nonneg_integer_iff:
  "nonneg_integer (JNum (stockOrder n)) \<longleftrightarrow>
     n = PInf \<or> (\<exists>q. n = Fin q \<and> (3 \<le> q \<or> integer_number (round_binary64 (3 - q))))"
proof (cases n)
  case NaN
  then show ?thesis by (simp add: stockOrder_special nonneg_integer_def)
next
  case PInf
  then show ?thesis by (simp add: stockOrder_special nonneg_integer_def)
next
  case NInf
  then show ?thesis by (simp add: stockOrder_special nonneg_integer_def)
next
  case (Fin q)
  show ?thesis
  proof (cases "3 \<le> q")
    case True
    then show ?thesis
      by (simp add: Fin stockOrder_enough nonneg_integer_def)
  next
    case False
    then have p: "0 < 3 - q" and m: "max (3 - q) 0 = 3 - q"
      by simp_all
    have s: "stockOrder (Fin q) = round_binary64 (3 - q)"
      by (simp only: stockOrder_finite m)
    from round_binary64_pos[OF p] show ?thesis
      unfolding Fin s using False by (auto simp: nonneg_integer_def integer_number_def)
  qed
qed

lemma stockOrder_integer_stock:
  assumes "\<bar>k\<bar> \<le> (2 ^ 53 - 1) * 2 ^ 971"
  shows "nonneg_integer (JNum (stockOrder (Fin (of_int k))))"
proof (cases "3 \<le> k")
  case True
  then have "(3::rat) \<le> of_int k"
    by simp
  then show ?thesis
    by (simp add: stockOrder_enough nonneg_integer_def)
next
  case False
  then have p: "0 < 3 - k"
    by simp
  have "3 - k \<le> (2 ^ 53 - 1) * 2 ^ 971 + 3"
    using assms by linarith
  also have "\<dots> < (2 ^ 54 - 1) * 2 ^ 970"
    by simp
  finally have "(of_int (3 - k) :: rat) < of_int ((2 ^ 54 - 1) * 2 ^ 970)"
    by (simp only: of_int_less_iff)
  then have b: "(of_int (3 - k) :: rat) < (2 ^ 54 - 1) * 2 ^ 970"
    by simp
  from round_binary64_integer[OF p b] obtain j where
    j: "0 \<le> j" "round_binary64 (of_int (3 - k)) = Fin (of_int j)"
    by blast
  have "max (3 - of_int k) (0::rat) = of_int (3 - k)"
    using p by (simp add: max_def)
  then have "stockOrder (Fin (of_int k)) = Fin (of_int j)"
    by (simp only: stockOrder_finite j(2))
  with j(1) show ?thesis
    by (simp add: nonneg_integer_def)
qed

section \<open>The purchase-order transformer: properties\<close>

lemma purchase_line_ok:
  assumes "get_prop item ''values'' = Inr (JObj kvs)"
    and "map_of kvs ''stock'' = Some cell"
    and "get_prop cell ''value'' = Inr sv"
    and "to_number sv = Inr n"
  shows "purchase_line item =
           Inr (JObj (AList.delete ''stock''
                  (AList.update ''purchase'' (purchase_cell (stockOrder n)) kvs)))"
  using assms by (simp add: purchase_line_def get_prop_def)

lemma purchase_line_InrD:
  assumes "purchase_line item = Inr line"
  shows "\<exists>kvs cell sv n.
           get_prop item ''values'' = Inr (JObj kvs)
           \<and> map_of kvs ''stock'' = Some cell
           \<and> get_prop cell ''value'' = Inr sv
           \<and> to_number sv = Inr n
           \<and> line = JObj (AList.delete ''stock''
                      (AList.update ''purchase'' (purchase_cell (stockOrder n)) kvs))"
proof -
  from assms obtain vals where v: "get_prop item ''values'' = Inr vals"
    by (auto simp: purchase_line_def split: sum.splits)
  from assms v obtain stock where s: "get_prop vals ''stock'' = Inr stock"
    by (auto simp: purchase_line_def split: sum.splits)
  from assms v s obtain sv where sv: "get_prop stock ''value'' = Inr sv"
    by (auto simp: purchase_line_def split: sum.splits)
  from assms v s sv obtain n where n: "to_number sv = Inr n"
    by (auto simp: purchase_line_def split: sum.splits)
  from assms v s sv n obtain kvs where k: "vals = JObj kvs"
    by (auto simp: purchase_line_def split: jsval.splits)
  from sv have "stock \<noteq> JUndefined"
    by (auto simp: get_prop_def)
  with s k have c: "map_of kvs ''stock'' = Some stock"
    by (auto simp: get_prop_def split: option.splits)
  from assms v s sv n k have
    "line = JObj (AList.delete ''stock''
              (AList.update ''purchase'' (purchase_cell (stockOrder n)) kvs))"
    by (simp add: purchase_line_def)
  with v k c sv n show ?thesis by blast
qed

lemma purchase_line_no_stock_cell:
  assumes "get_prop item ''values'' = Inr (JObj kvs)" and "map_of kvs ''stock'' = None"
  shows "purchase_line item = Inl TypeError"
  using assms by (simp add: purchase_line_def get_prop_def)

lemma purchase_line_empty_cell:
  assumes "get_prop item ''values'' = Inr (JObj kvs)" and "map_of kvs ''stock'' = Some cell"
    and "cell = JNull \<or> cell = JUndefined"
  shows "purchase_line item = Inl TypeError"
  using assms by (auto simp: purchase_line_def get_prop_def)

lemma purchase_line_no_number:
  assumes "get_prop item ''values'' = Inr (JObj kvs)" and "map_of kvs ''stock'' = Some cell"
    and "get_prop cell ''value'' = Inr sv" and "to_number sv = Inl e"
  shows "purchase_line item = Inl e"
  using assms by (simp add: purchase_line_def get_prop_def)

lemma map_of_line:
  "map_of (AList.delete ''stock'' (AList.update ''purchase'' c kvs)) =
     ((map_of kvs)(''purchase'' \<mapsto> c))(''stock'' := None)"
  by (simp add: delete_conv' update_conv')

lemma filter_delete:
  "filter (\<lambda>kv. fst kv \<noteq> s \<and> fst kv \<noteq> p) (AList.delete s kvs) =
     filter (\<lambda>kv. fst kv \<noteq> s \<and> fst kv \<noteq> p) kvs"
  by (induction kvs) auto

lemma other_fields_kept:
  "filter (\<lambda>kv. fst kv \<noteq> s \<and> fst kv \<noteq> p) (AList.delete s (AList.update p c kvs)) =
     filter (\<lambda>kv. fst kv \<noteq> s \<and> fst kv \<noteq> p) kvs"
  by (induction kvs) (auto simp: filter_delete)

lemma purchase_value_line:
  "purchase_value (JObj (AList.delete ''stock'' (AList.update ''purchase'' (purchase_cell q) kvs)))
     = Inr (JNum q)"
  by (simp add: purchase_value_def get_prop_def map_of_line purchase_cell_def)

lemma purchase_positive_line:
  "purchase_positive (JObj (AList.delete ''stock'' (AList.update ''purchase'' (purchase_cell q) kvs)))
     = Inr (num_less (Fin 0) q)"
  by (simp add: purchase_positive_def purchase_value_line gt_number_def to_number_def)

text \<open>
  Claim C9. The line derived from a row is the row's \<^verbatim>\<open>values\<close> object without the key
  \<^verbatim>\<open>stock\<close> and with the key \<^verbatim>\<open>purchase\<close> bound to the computed cell: every other key has
  the value it had, and the other keys come in the order they had.
\<close>

theorem line_is_record_without_stock_with_purchase:
  assumes "purchase_line item = Inr line"
  shows "\<exists>kvs kvs' q.
           get_prop item ''values'' = Inr (JObj kvs) \<and> line = JObj kvs'
           \<and> map_of kvs' ''stock'' = None
           \<and> map_of kvs' ''purchase'' = Some (JObj [(''value'', JNum q), (''valid'', JBool True)])
           \<and> (\<forall>k. k \<noteq> ''stock'' \<and> k \<noteq> ''purchase'' \<longrightarrow> map_of kvs' k = map_of kvs k)
           \<and> filter (\<lambda>kv. fst kv \<noteq> ''stock'' \<and> fst kv \<noteq> ''purchase'') kvs'
               = filter (\<lambda>kv. fst kv \<noteq> ''stock'' \<and> fst kv \<noteq> ''purchase'') kvs"
proof -
  from purchase_line_InrD[OF assms] obtain kvs n where
    v: "get_prop item ''values'' = Inr (JObj kvs)" and
    l: "line = JObj (AList.delete ''stock''
                      (AList.update ''purchase'' (purchase_cell (stockOrder n)) kvs))"
    by blast
  define kvs' where
    "kvs' = AList.delete ''stock'' (AList.update ''purchase'' (purchase_cell (stockOrder n)) kvs)"
  have 1: "map_of kvs' ''stock'' = None"
    by (simp add: kvs'_def map_of_line)
  have 2: "map_of kvs' ''purchase'' =
             Some (JObj [(''value'', JNum (stockOrder n)), (''valid'', JBool True)])"
    by (simp add: kvs'_def map_of_line purchase_cell_def)
  have 3: "\<forall>k. k \<noteq> ''stock'' \<and> k \<noteq> ''purchase'' \<longrightarrow> map_of kvs' k = map_of kvs k"
    by (simp add: kvs'_def map_of_line)
  have 4: "filter (\<lambda>kv. fst kv \<noteq> ''stock'' \<and> fst kv \<noteq> ''purchase'') kvs'
               = filter (\<lambda>kv. fst kv \<noteq> ''stock'' \<and> fst kv \<noteq> ''purchase'') kvs"
    unfolding kvs'_def by (rule other_fields_kept)
  from v l 1 2 3 4 show ?thesis
    unfolding kvs'_def[symmetric] by blast
qed

lemma purchase_line_item_with_stock:
  "to_number v = Inr n \<Longrightarrow>
     purchase_line (item_with_stock v) = Inr (line_with_purchase (stockOrder n))"
  by (simp add: purchase_line_def item_with_stock_def line_with_purchase_def get_prop_def
      purchase_cell_def)

text \<open>
  Claim C2. For a row whose stock cell holds a Number \<open>s\<close>, the line is derived and its
  \<^verbatim>\<open>purchase.value\<close> is \<^verbatim>\<open>Math.max(3 - s, 0)\<close>. That value is never below zero; for a
  finite \<open>s\<close> it is the binary64 value of \<open>max (3 - s) 0\<close>, and for an integer stock
  with \<open>\<bar>3 - s\<bar> < 2 ^ 53\<close> it is \<open>max (3 - s) 0\<close> exactly.
\<close>

theorem quantity_is_max_three_minus_stock:
  assumes "get_prop item ''values'' = Inr (JObj kvs)"
    and "map_of kvs ''stock'' = Some cell"
    and "get_prop cell ''value'' = Inr (JNum s)"
  shows "(\<exists>line. purchase_line item = Inr line
            \<and> purchase_value line = Inr (JNum (stockOrder s)))
         \<and> \<not> num_less (stockOrder s) (Fin 0)
         \<and> (\<forall>q. s = Fin q \<longrightarrow> stockOrder s = round_binary64 (max (3 - q) 0))
         \<and> (\<forall>n. s = Fin (of_int n) \<and> \<bar>3 - n\<bar> < 2 ^ 53
                \<longrightarrow> stockOrder s = Fin (of_int (max (3 - n) 0)))"
proof -
  have n: "to_number (JNum s) = Inr s"
    by (simp add: to_number_def)
  have 1: "\<exists>line. purchase_line item = Inr line
            \<and> purchase_value line = Inr (JNum (stockOrder s))"
    unfolding purchase_line_ok[OF assms n] by (simp add: purchase_value_line)
  have 2: "\<not> num_less (stockOrder s) (Fin 0)"
    by (rule stockOrder_not_negative)
  have 3: "\<forall>q. s = Fin q \<longrightarrow> stockOrder s = round_binary64 (max (3 - q) 0)"
    by (simp add: stockOrder_finite)
  have 4: "\<forall>n. s = Fin (of_int n) \<and> \<bar>3 - n\<bar> < 2 ^ 53
                \<longrightarrow> stockOrder s = Fin (of_int (max (3 - n) 0))"
    by (auto intro!: stockOrder_integer)
  from 1 2 3 4 show ?thesis by (intro conjI)
qed

text \<open>
  Claim C3, as amended. Whenever a line is derived from a row, the row has a stock cell
  whose value converts to a Number \<open>n\<close>, and \<^verbatim>\<open>purchase.value\<close> is
  \<^verbatim>\<open>Math.max(3 - n, 0)\<close>. That value is a non-negative integer exactly in these cases:
  \<open>n\<close> is \<open>+\<infinity>\<close> or a finite number of at least 3, and then the value is 0; or \<open>n\<close>
  is a finite number below 3 and the binary64 result of \<open>3 - n\<close> is an integer. The last
  case covers every integer \<open>n\<close> up to the greatest binary64 value in magnitude. For
  \<open>n\<close> NaN the value is NaN, and for \<open>n = -\<infinity>\<close> it is \<open>+\<infinity>\<close>.
\<close>

theorem purchase_value_nonneg_integer_iff:
  assumes "purchase_line item = Inr line"
  shows "\<exists>kvs cell sv n.
           get_prop item ''values'' = Inr (JObj kvs)
           \<and> map_of kvs ''stock'' = Some cell
           \<and> get_prop cell ''value'' = Inr sv
           \<and> to_number sv = Inr n
           \<and> purchase_value line = Inr (JNum (stockOrder n))
           \<and> (nonneg_integer (JNum (stockOrder n)) \<longleftrightarrow>
                n = PInf
                \<or> (\<exists>q. n = Fin q \<and> (3 \<le> q \<or> integer_number (round_binary64 (3 - q)))))
           \<and> (n = PInf \<or> (\<exists>q. n = Fin q \<and> 3 \<le> q) \<longrightarrow> stockOrder n = Fin 0)
           \<and> (\<forall>k. n = Fin (of_int k) \<and> \<bar>k\<bar> \<le> (2 ^ 53 - 1) * 2 ^ 971
                  \<longrightarrow> nonneg_integer (JNum (stockOrder n)))
           \<and> (n = NaN \<longrightarrow> stockOrder n = NaN)
           \<and> (n = NInf \<longrightarrow> stockOrder n = PInf)"
proof -
  from purchase_line_InrD[OF assms] obtain kvs cell sv n where
    v: "get_prop item ''values'' = Inr (JObj kvs)" and
    c: "map_of kvs ''stock'' = Some cell" and
    s: "get_prop cell ''value'' = Inr sv" and
    n: "to_number sv = Inr n" and
    l: "line = JObj (AList.delete ''stock''
                      (AList.update ''purchase'' (purchase_cell (stockOrder n)) kvs))"
    by blast
  have 1: "purchase_value line = Inr (JNum (stockOrder n))"
    unfolding l by (rule purchase_value_line)
  have 2: "nonneg_integer (JNum (stockOrder n)) \<longleftrightarrow>
                n = PInf
                \<or> (\<exists>q. n = Fin q \<and> (3 \<le> q \<or> integer_number (round_binary64 (3 - q))))"
    by (rule stockOrder_nonneg_integer_iff)
  have 3: "n = PInf \<or> (\<exists>q. n = Fin q \<and> 3 \<le> q) \<longrightarrow> stockOrder n = Fin 0"
    by (auto simp: stockOrder_special stockOrder_enough)
  have 4: "\<forall>k. n = Fin (of_int k) \<and> \<bar>k\<bar> \<le> (2 ^ 53 - 1) * 2 ^ 971
                  \<longrightarrow> nonneg_integer (JNum (stockOrder n))"
    using stockOrder_integer_stock by blast
  have 5: "n = NaN \<longrightarrow> stockOrder n = NaN" and 6: "n = NInf \<longrightarrow> stockOrder n = PInf"
    by (simp_all add: stockOrder_special)
  from v c s n 1 2 3 4 5 6 show ?thesis
    by blast
qed

lemma round_binary64_half: "round_binary64 (1 / 2) = Fin (1 / 2)"
proof -
  have e: "- 53 = max (floor_log2 \<bar>1 / 2 :: rat\<bar> - 52) (- 1074)"
    by code_simp
  have m: "round_half_even (\<bar>1 / 2 :: rat\<bar> / power_int 2 (- 53)) = 4503599627370496"
    by code_simp
  have r: "(1 / 2 :: rat) = of_int (round_half_even (\<bar>1 / 2 :: rat\<bar> / power_int 2 (- 53))) * power_int 2 (- 53)"
    unfolding m by code_simp
  have o: "\<not> overflows (1 / 2)"
    by (simp add: overflows_def)
  have q0: "(1 / 2 :: rat) \<noteq> 0"
    by simp
  show ?thesis
    unfolding round_binary64_unfold[OF q0 e r] using o by simp
qed

lemmas run_to_number = to_number_def string_to_number_def cp_def trim_def is_space_def
  parse_signed_decimal_def parse_unsigned_decimal_def is_digit_def parse_digits_def
  digit_val_def parse_exponent_def parse_radix_def

lemma to_number_example: "to_number (JStr (cp ''n/a'')) = Inr NaN"
  by (simp add: run_to_number)

lemma line_with_purchase_value: "purchase_value (line_with_purchase q) = Inr (JNum q)"
  by (simp add: purchase_value_def line_with_purchase_def get_prop_def)

lemma line_with_purchase_positive:
  "purchase_positive (line_with_purchase q) = Inr (num_less (Fin 0) q)"
  by (simp add: purchase_positive_def line_with_purchase_value gt_number_def to_number_def)

text \<open>
  Claim C3 as stated fails: a stock of 2.5 gives the quantity 0.5, and the stock
  \<^verbatim>\<open>"n/a"\<close> gives NaN; neither is a non-negative integer.
\<close>

theorem purchase_value_not_always_nonneg_integer:
  "purchase_line (item_with_stock (JNum (Fin (5 / 2)))) = Inr (line_with_purchase (Fin (1 / 2)))
   \<and> purchase_value (line_with_purchase (Fin (1 / 2))) = Inr (JNum (Fin (1 / 2)))
   \<and> \<not> nonneg_integer (JNum (Fin (1 / 2)))
   \<and> purchase_line (item_with_stock (JStr (cp ''n/a''))) = Inr (line_with_purchase NaN)
   \<and> purchase_value (line_with_purchase NaN) = Inr (JNum NaN)
   \<and> \<not> nonneg_integer (JNum NaN)"
proof -
  have a: "stockOrder (Fin (5 / 2)) = Fin (1 / 2)"
    by (simp add: stockOrder_def round_binary64_half)
  have n: "to_number (JNum (Fin (5 / 2))) = Inr (Fin (5 / 2))"
    by (simp add: to_number_def)
  have f: "\<lfloor>1 / 2 :: rat\<rfloor> = 0"
    by (rule floor_unique) simp_all
  have c: "\<not> nonneg_integer (JNum (Fin (1 / 2)))" "\<not> nonneg_integer (JNum NaN)"
    by (simp_all add: nonneg_integer_def f)
  have 1: "purchase_line (item_with_stock (JNum (Fin (5 / 2))))
             = Inr (line_with_purchase (Fin (1 / 2)))"
    unfolding purchase_line_item_with_stock[OF n] a ..
  have 2: "purchase_line (item_with_stock (JStr (cp ''n/a''))) = Inr (line_with_purchase NaN)"
    unfolding purchase_line_item_with_stock[OF to_number_example] stockOrder_special ..
  from 1 2 c show ?thesis
    unfolding line_with_purchase_value by (intro conjI refl)
qed

lemma purchase_line_errors: "purchase_line item = Inl e \<Longrightarrow> e = TypeError"
  by (auto simp: purchase_line_def get_prop_def to_number_def object_to_primitive_def
      split: sum.splits jsval.splits option.splits)

lemma purchase_line_cases:
  "purchase_line item = Inl TypeError
   \<or> (\<exists>kvs cell sv n line.
         get_prop item ''values'' = Inr (JObj kvs)
         \<and> map_of kvs ''stock'' = Some cell
         \<and> get_prop cell ''value'' = Inr sv
         \<and> to_number sv = Inr n
         \<and> purchase_line item = Inr line
         \<and> purchase_value line = Inr (JNum (math_max (js_sub (Fin 3) n) (Fin 0))))"
proof (cases "purchase_line item")
  case (Inl e)
  then show ?thesis
    by (simp add: purchase_line_errors)
next
  case (Inr line)
  from purchase_line_InrD[OF Inr] obtain kvs cell sv n where
    v: "get_prop item ''values'' = Inr (JObj kvs)" and
    c: "map_of kvs ''stock'' = Some cell" and
    s: "get_prop cell ''value'' = Inr sv" and
    n: "to_number sv = Inr n" and
    l: "line = JObj (AList.delete ''stock''
                      (AList.update ''purchase'' (purchase_cell (stockOrder n)) kvs))"
    by blast
  have "purchase_value line = Inr (JNum (math_max (js_sub (Fin 3) n) (Fin 0)))"
    unfolding l purchase_value_line stockOrder_def ..
  with v c s n Inr show ?thesis
    by blast
qed

lemma to_number_object:
  "to_number (JObj kvs) = (if map_of kvs ''toString'' = None then Inr NaN else Inl TypeError)"
proof -
  have "string_to_number (cp ''[object Object]'') = NaN"
    by (simp add: run_to_number)
  then show ?thesis
    by (simp add: to_number_def object_to_primitive_def split: option.splits)
qed

text \<open>
  Claim C5, as amended. The transformer has no validation error; the only error its
  callback raises is a TypeError. A line is derived exactly when the row's
  \<^verbatim>\<open>values\<close> hold a stock cell, the cell is neither \<^verbatim>\<open>null\<close> nor \<^verbatim>\<open>undefined\<close>, and the
  value of the cell converts to a Number \<open>n\<close>; \<^verbatim>\<open>purchase.value\<close> is then
  \<^verbatim>\<open>Math.max(3 - n, 0)\<close>, whatever the kind of the value: \<^verbatim>\<open>undefined\<close> counts as NaN,
  \<^verbatim>\<open>null\<close> and \<^verbatim>\<open>false\<close> as 0, \<^verbatim>\<open>true\<close> as 1, a string as the number it spells or NaN,
  an object without a key \<^verbatim>\<open>toString\<close> as NaN. In every other case the callback throws
  a TypeError: when the row has no stock cell, when the stock cell is \<^verbatim>\<open>null\<close> or
  \<^verbatim>\<open>undefined\<close>, when the value is an object with a key \<^verbatim>\<open>toString\<close>.
\<close>

theorem stock_is_coerced_not_validated:
  "(purchase_line item = Inl TypeError
    \<or> (\<exists>kvs cell sv n line.
          get_prop item ''values'' = Inr (JObj kvs)
          \<and> map_of kvs ''stock'' = Some cell
          \<and> get_prop cell ''value'' = Inr sv
          \<and> to_number sv = Inr n
          \<and> purchase_line item = Inr line
          \<and> purchase_value line = Inr (JNum (math_max (js_sub (Fin 3) n) (Fin 0)))))
   \<and> (\<forall>kvs cell sv n.
         get_prop item ''values'' = Inr (JObj kvs) \<and> map_of kvs ''stock'' = Some cell
         \<and> get_prop cell ''value'' = Inr sv \<and> to_number sv = Inr n \<longrightarrow>
         (\<exists>line. purchase_line item = Inr line
            \<and> purchase_value line = Inr (JNum (math_max (js_sub (Fin 3) n) (Fin 0)))))
   \<and> (\<forall>kvs. get_prop item ''values'' = Inr (JObj kvs) \<and> map_of kvs ''stock'' = None \<longrightarrow>
         purchase_line item = Inl TypeError)
   \<and> (\<forall>kvs cell.
         get_prop item ''values'' = Inr (JObj kvs) \<and> map_of kvs ''stock'' = Some cell
         \<and> (cell = JNull \<or> cell = JUndefined) \<longrightarrow>
         purchase_line item = Inl TypeError)
   \<and> (\<forall>kvs cell sv.
         get_prop item ''values'' = Inr (JObj kvs) \<and> map_of kvs ''stock'' = Some cell
         \<and> get_prop cell ''value'' = Inr sv \<and> to_number sv = Inl TypeError \<longrightarrow>
         purchase_line item = Inl TypeError)
   \<and> (\<forall>cell. cell \<noteq> JNull \<and> cell \<noteq> JUndefined \<longrightarrow> (\<exists>sv. get_prop cell ''value'' = Inr sv))
   \<and> to_number JUndefined = Inr NaN
   \<and> to_number JNull = Inr (Fin 0)
   \<and> to_number (JBool False) = Inr (Fin 0)
   \<and> to_number (JBool True) = Inr (Fin 1)
   \<and> (\<forall>x. to_number (JNum x) = Inr x)
   \<and> (\<forall>s. to_number (JStr s) = Inr (string_to_number s))
   \<and> (\<forall>obj. to_number (JObj obj)
               = (if map_of obj ''toString'' = None then Inr NaN else Inl TypeError))"
proof -
  have 1: "purchase_line item = Inl TypeError
    \<or> (\<exists>kvs cell sv n line.
          get_prop item ''values'' = Inr (JObj kvs)
          \<and> map_of kvs ''stock'' = Some cell
          \<and> get_prop cell ''value'' = Inr sv
          \<and> to_number sv = Inr n
          \<and> purchase_line item = Inr line
          \<and> purchase_value line = Inr (JNum (math_max (js_sub (Fin 3) n) (Fin 0))))"
    by (rule purchase_line_cases)
  have 2: "\<forall>kvs cell sv n.
         get_prop item ''values'' = Inr (JObj kvs) \<and> map_of kvs ''stock'' = Some cell
         \<and> get_prop cell ''value'' = Inr sv \<and> to_number sv = Inr n \<longrightarrow>
         (\<exists>line. purchase_line item = Inr line
            \<and> purchase_value line = Inr (JNum (math_max (js_sub (Fin 3) n) (Fin 0))))"
    by (auto simp: purchase_line_ok purchase_value_line stockOrder_def)
  have 3: "\<forall>kvs. get_prop item ''values'' = Inr (JObj kvs) \<and> map_of kvs ''stock'' = None \<longrightarrow>
         purchase_line item = Inl TypeError"
    by (simp add: purchase_line_no_stock_cell)
  have 4: "\<forall>kvs cell.
         get_prop item ''values'' = Inr (JObj kvs) \<and> map_of kvs ''stock'' = Some cell
         \<and> (cell = JNull \<or> cell = JUndefined) \<longrightarrow>
         purchase_line item = Inl TypeError"
    using purchase_line_empty_cell by blast
  have 5: "\<forall>kvs cell sv.
         get_prop item ''values'' = Inr (JObj kvs) \<and> map_of kvs ''stock'' = Some cell
         \<and> get_prop cell ''value'' = Inr sv \<and> to_number sv = Inl TypeError \<longrightarrow>
         purchase_line item = Inl TypeError"
    using purchase_line_no_number by blast
  have 6: "\<forall>cell. cell \<noteq> JNull \<and> cell \<noteq> JUndefined \<longrightarrow> (\<exists>sv. get_prop cell ''value'' = Inr sv)"
    by (auto simp: get_prop_def split: jsval.splits)
  have 7: "to_number JUndefined = Inr NaN" "to_number JNull = Inr (Fin 0)"
    "to_number (JBool False) = Inr (Fin 0)" "to_number (JBool True) = Inr (Fin 1)"
    "\<forall>x. to_number (JNum x) = Inr x" "\<forall>s. to_number (JStr s) = Inr (string_to_number s)"
    by (simp_all add: to_number_def)
  have 8: "\<forall>obj. to_number (JObj obj)
               = (if map_of obj ''toString'' = None then Inr NaN else Inl TypeError)"
    by (simp only: to_number_object) simp
  from 1 2 3 4 5 6 7 8 show ?thesis
    by (intro conjI)
qed

text \<open>
  Claim C5 as stated fails: for the stock \<^verbatim>\<open>"n/a"\<close> the transformer raises nothing, derives
  a line with the quantity NaN and the filter drops it, and the handler run on a sheet
  with that row ends without an error; for the stock \<^verbatim>\<open>null\<close> the transformer derives a
  line with the quantity 3, which the filter keeps.
\<close>

theorem non_numeric_stock_raises_nothing:
  "purchaseInventory [item_with_stock (JStr (cp ''n/a''))] = Inr [line_with_purchase NaN]
   \<and> purchaseOrder [line_with_purchase NaN] = Inr []
   \<and> fst (job_completed ''wb_1''
            (example_world\<lparr>sheets := [''sh_inventory'' \<mapsto> [item_with_stock (JStr (cp ''n/a''))],
                                      ''sh_orders'' \<mapsto> []]\<rparr>)) = Inr ()
   \<and> purchaseInventory [item_with_stock JNull] = Inr [line_with_purchase (Fin 3)]
   \<and> purchaseOrder [line_with_purchase (Fin 3)] = Inr [line_with_purchase (Fin 3)]"
proof -
  have b: "stockOrder (Fin 0) = Fin 3"
    using stockOrder_integer[of 0] by simp
  have n: "to_number JNull = Inr (Fin 0)"
    by (simp add: to_number_def)
  have i: "purchaseInventory [item_with_stock (JStr (cp ''n/a''))] = Inr [line_with_purchase NaN]"
    by (simp add: purchaseInventory_def purchase_line_item_with_stock[OF to_number_example]
        stockOrder_special)
  have o: "purchaseOrder [line_with_purchase NaN] = Inr []"
    by (simp add: purchaseOrder_def line_with_purchase_positive)
  have j: "fst (job_completed ''wb_1''
            (example_world\<lparr>sheets := [''sh_inventory'' \<mapsto> [item_with_stock (JStr (cp ''n/a''))],
                                      ''sh_orders'' \<mapsto> []]\<rparr>)) = Inr ()"
    by (simp add: job_completed_def example_world_def event_secrets_def workbooks_get_def
        sheet_id_at_def records_get_def records_insert_def getRecordsAsCsv_def sendMail_def i o)
  have k: "purchaseInventory [item_with_stock JNull] = Inr [line_with_purchase (Fin 3)]"
    by (simp add: purchaseInventory_def purchase_line_item_with_stock[OF n] b)
  have p: "purchaseOrder [line_with_purchase (Fin 3)] = Inr [line_with_purchase (Fin 3)]"
    by (simp add: purchaseOrder_def line_with_purchase_positive)
  from i o j k p show ?thesis
    by (intro conjI)
qed

section \<open>The handler: properties\<close>

lemma map_e_InrD: "map_e f xs = Inr ys \<Longrightarrow> list_all2 (\<lambda>x y. f x = Inr y) xs ys"
  by (induction xs arbitrary: ys) (auto split: sum.splits)

lemma filter_e_total:
  "\<forall>x\<in>set xs. \<exists>b. p x = Inr b \<Longrightarrow> filter_e p xs = Inr (filter (\<lambda>x. p x = Inr True) xs)"
  by (induction xs) auto

lemma lines_have_quantity:
  assumes "purchaseInventory records = Inr lines" and "l \<in> set lines"
  shows "\<exists>q. purchase_value l = Inr (JNum q) \<and> purchase_positive l = Inr (num_less (Fin 0) q)"
proof -
  from assms(1) have "list_all2 (\<lambda>x y. purchase_line x = Inr y) records lines"
    by (simp add: purchaseInventory_def map_e_InrD)
  with assms(2) obtain item where "purchase_line item = Inr l"
    by (auto simp: list_all2_conv_all_nth in_set_conv_nth)
  from purchase_line_InrD[OF this] obtain kvs n where
    "l = JObj (AList.delete ''stock''
                (AList.update ''purchase'' (purchase_cell (stockOrder n)) kvs))"
    by blast
  then show ?thesis
    by (simp add: purchase_value_line purchase_positive_line)
qed

lemma purchaseOrder_total:
  assumes "purchaseInventory records = Inr lines"
  shows "purchaseOrder lines = Inr (filter (\<lambda>l. purchase_positive l = Inr True) lines)"
  unfolding purchaseOrder_def
  by (rule filter_e_total) (use lines_have_quantity[OF assms] in blast)

lemma job_completed_inserts:
  assumes "secret_store w ''email'' = Some em" and "secret_store w ''password'' = Some pw"
    and "workbooks w workbookId = Some (inventorySheet # orderSheet # others)"
    and "sheets w inventorySheet = Some records" and "sheets w orderSheet = Some old"
    and "purchaseInventory records = Inr lines" and "purchaseOrder lines = Inr batch"
  shows "sheets (snd (job_completed workbookId w)) orderSheet = Some (old @ map new_record batch)"
  using assms
  by (simp add: job_completed_def event_secrets_def workbooks_get_def sheet_id_at_def
      records_get_def records_insert_def getRecordsAsCsv_def sendMail_def)

lemma job_completed_map_throws:
  assumes "secret_store w ''email'' = Some em" and "secret_store w ''password'' = Some pw"
    and "workbooks w workbookId = Some (inventorySheet # orderSheet # others)"
    and "sheets w inventorySheet = Some records"
    and "purchaseInventory records = Inl e"
  shows "job_completed workbookId w = (Inl e, w)"
  using assms
  by (simp add: job_completed_def event_secrets_def workbooks_get_def sheet_id_at_def
      records_get_def)

lemma list_all2_left: "list_all2 P xs ys \<Longrightarrow> x \<in> set xs \<Longrightarrow> \<exists>y\<in>set ys. P x y"
  by (induction rule: list_all2_induct) auto

lemma filter_member: "filter (\<lambda>x. x \<in> set (filter P xs)) xs = filter P xs"
  by (rule filter_cong) auto

text \<open>
  Claim C1 as stated fails: on an inventory sheet whose first row has the stock 1 and
  whose second row has no stock cell, the line of the first row has the
  \<^verbatim>\<open>purchase.value\<close> 2, which is greater than zero, and yet the handler ends with the
  TypeError of the second row and the order sheet stays empty.
\<close>

theorem row_without_stock_stops_every_insert:
  "purchase_line (item_with_stock (JNum (Fin 1))) = Inr (line_with_purchase (Fin 2))
   \<and> purchase_value (line_with_purchase (Fin 2)) = Inr (JNum (Fin 2))
   \<and> num_less (Fin 0) (Fin 2)
   \<and> job_completed ''wb_1''
        (example_world\<lparr>sheets := [''sh_inventory'' \<mapsto>
                                     [item_with_stock (JNum (Fin 1)), item_without_stock],
                                  ''sh_orders'' \<mapsto> []]\<rparr>)
       = (Inl TypeError,
          example_world\<lparr>sheets := [''sh_inventory'' \<mapsto>
                                     [item_with_stock (JNum (Fin 1)), item_without_stock],
                                   ''sh_orders'' \<mapsto> []]\<rparr>)
   \<and> sheets (snd (job_completed ''wb_1''
        (example_world\<lparr>sheets := [''sh_inventory'' \<mapsto>
                                     [item_with_stock (JNum (Fin 1)), item_without_stock],
                                  ''sh_orders'' \<mapsto> []]\<rparr>))) ''sh_orders'' = Some []"
proof -
  have n: "to_number (JNum (Fin 1)) = Inr (Fin 1)"
    by (simp add: to_number_def)
  have s: "stockOrder (Fin 1) = Fin 2"
    using stockOrder_integer[of 1] by simp
  have 1: "purchase_line (item_with_stock (JNum (Fin 1))) = Inr (line_with_purchase (Fin 2))"
    unfolding purchase_line_item_with_stock[OF n] s ..
  have 2: "purchase_line item_without_stock = Inl TypeError"
    by (simp add: purchase_line_def item_without_stock_def get_prop_def)
  have 3: "purchaseInventory [item_with_stock (JNum (Fin 1)), item_without_stock] = Inl TypeError"
    by (simp add: purchaseInventory_def 1 2)
  have 4: "job_completed ''wb_1''
        (example_world\<lparr>sheets := [''sh_inventory'' \<mapsto>
                                     [item_with_stock (JNum (Fin 1)), item_without_stock],
                                  ''sh_orders'' \<mapsto> []]\<rparr>)
       = (Inl TypeError,
          example_world\<lparr>sheets := [''sh_inventory'' \<mapsto>
                                     [item_with_stock (JNum (Fin 1)), item_without_stock],
                                   ''sh_orders'' \<mapsto> []]\<rparr>)"
    by (simp add: job_completed_def example_world_def event_secrets_def workbooks_get_def
        sheet_id_at_def records_get_def 3)
  have 5: "sheets (snd (job_completed ''wb_1''
        (example_world\<lparr>sheets := [''sh_inventory'' \<mapsto>
                                     [item_with_stock (JNum (Fin 1)), item_without_stock],
                                  ''sh_orders'' \<mapsto> []]\<rparr>))) ''sh_orders'' = Some []"
    unfolding 4 by simp
  have 6: "purchase_value (line_with_purchase (Fin 2)) = Inr (JNum (Fin 2))"
    by (rule line_with_purchase_value)
  have 7: "num_less (Fin 0) (Fin 2)"
    by simp
  from 1 6 7 4 5 show ?thesis
    by (intro conjI)
qed

text \<open>
  Claim C1, as amended. Take a run of the handler that reaches the transformer: both
  secrets resolve, the workbook has its two sheets and both sheets are there. When the
  callback of \<^verbatim>\<open>map\<close> derives a line for every row of the inventory sheet, the order sheet
  ends with the rows it had followed by a batch of new rows, and the batch is a selection
  of the derived lines in their order. Every row of the inventory sheet then has a stock
  cell whose value converts to a Number \<open>n\<close>, its line carries the \<^verbatim>\<open>purchase\<close> cell
  with the value \<^verbatim>\<open>Math.max(3 - n, 0)\<close>, and the line is in the batch if and only if that
  value is greater than zero; in particular a line whose value is zero is not in it.
  When the callback throws on some row, the handler ends with that error and leaves the
  platform as it found it: no line is inserted.
\<close>

theorem purchase_line_inserted_iff_positive:
  assumes "secret_store w ''email'' = Some em" and "secret_store w ''password'' = Some pw"
    and "workbooks w workbookId = Some (inventorySheet # orderSheet # others)"
    and "sheets w inventorySheet = Some records" and "sheets w orderSheet = Some old"
  shows "(\<forall>lines. purchaseInventory records = Inr lines \<longrightarrow>
            (\<exists>batch.
               sheets (snd (job_completed workbookId w)) orderSheet
                 = Some (old @ map new_record batch)
               \<and> list_all2 (\<lambda>item line. purchase_line item = Inr line) records lines
               \<and> batch = filter (\<lambda>line. line \<in> set batch) lines
               \<and> (\<forall>item\<in>set records. \<exists>kvs cell sv n line kvs'.
                      get_prop item ''values'' = Inr (JObj kvs)
                      \<and> map_of kvs ''stock'' = Some cell
                      \<and> get_prop cell ''value'' = Inr sv
                      \<and> to_number sv = Inr n
                      \<and> purchase_line item = Inr line
                      \<and> line = JObj kvs'
                      \<and> map_of kvs' ''purchase''
                          = Some (JObj [(''value'', JNum (stockOrder n)), (''valid'', JBool True)])
                      \<and> (line \<in> set batch \<longleftrightarrow> num_less (Fin 0) (stockOrder n))
                      \<and> (stockOrder n = Fin 0 \<longrightarrow> line \<notin> set batch))))
         \<and> (\<forall>e. purchaseInventory records = Inl e \<longrightarrow> job_completed workbookId w = (Inl e, w))"
proof -
  have a: "\<exists>batch.
               sheets (snd (job_completed workbookId w)) orderSheet
                 = Some (old @ map new_record batch)
               \<and> list_all2 (\<lambda>item line. purchase_line item = Inr line) records lines
               \<and> batch = filter (\<lambda>line. line \<in> set batch) lines
               \<and> (\<forall>item\<in>set records. \<exists>kvs cell sv n line kvs'.
                      get_prop item ''values'' = Inr (JObj kvs)
                      \<and> map_of kvs ''stock'' = Some cell
                      \<and> get_prop cell ''value'' = Inr sv
                      \<and> to_number sv = Inr n
                      \<and> purchase_line item = Inr line
                      \<and> line = JObj kvs'
                      \<and> map_of kvs' ''purchase''
                          = Some (JObj [(''value'', JNum (stockOrder n)), (''valid'', JBool True)])
                      \<and> (line \<in> set batch \<longleftrightarrow> num_less (Fin 0) (stockOrder n))
                      \<and> (stockOrder n = Fin 0 \<longrightarrow> line \<notin> set batch))"
    if pi: "purchaseInventory records = Inr lines" for lines
  proof -
    define batch where "batch = filter (\<lambda>l. purchase_positive l = Inr True) lines"
    have la: "list_all2 (\<lambda>item line. purchase_line item = Inr line) records lines"
      using pi by (simp add: purchaseInventory_def map_e_InrD)
    have po: "purchaseOrder lines = Inr batch"
      unfolding batch_def using pi by (rule purchaseOrder_total)
    have 1: "sheets (snd (job_completed workbookId w)) orderSheet
               = Some (old @ map new_record batch)"
      using assms pi po by (rule job_completed_inserts)
    have 2: "batch = filter (\<lambda>line. line \<in> set batch) lines"
      unfolding batch_def filter_member ..
    have 3: "\<forall>item\<in>set records. \<exists>kvs cell sv n line kvs'.
                      get_prop item ''values'' = Inr (JObj kvs)
                      \<and> map_of kvs ''stock'' = Some cell
                      \<and> get_prop cell ''value'' = Inr sv
                      \<and> to_number sv = Inr n
                      \<and> purchase_line item = Inr line
                      \<and> line = JObj kvs'
                      \<and> map_of kvs' ''purchase''
                          = Some (JObj [(''value'', JNum (stockOrder n)), (''valid'', JBool True)])
                      \<and> (line \<in> set batch \<longleftrightarrow> num_less (Fin 0) (stockOrder n))
                      \<and> (stockOrder n = Fin 0 \<longrightarrow> line \<notin> set batch)"
    proof
      fix item assume "item \<in> set records"
      with la obtain line where l: "line \<in> set lines" and p: "purchase_line item = Inr line"
        by (blast dest: list_all2_left)
      from purchase_line_InrD[OF p] obtain kvs cell sv n where
        v: "get_prop item ''values'' = Inr (JObj kvs)" and
        c: "map_of kvs ''stock'' = Some cell" and
        s: "get_prop cell ''value'' = Inr sv" and
        n: "to_number sv = Inr n" and
        e: "line = JObj (AList.delete ''stock''
                          (AList.update ''purchase'' (purchase_cell (stockOrder n)) kvs))"
        by blast
      have m: "map_of (AList.delete ''stock''
                          (AList.update ''purchase'' (purchase_cell (stockOrder n)) kvs))
                 ''purchase''
                 = Some (JObj [(''value'', JNum (stockOrder n)), (''valid'', JBool True)])"
        by (simp add: map_of_line purchase_cell_def)
      have "purchase_positive line = Inr (num_less (Fin 0) (stockOrder n))"
        unfolding e by (rule purchase_positive_line)
      with l have i: "line \<in> set batch \<longleftrightarrow> num_less (Fin 0) (stockOrder n)"
        by (simp add: batch_def)
      then have z: "stockOrder n = Fin 0 \<longrightarrow> line \<notin> set batch"
        by simp
      from v c s n p e m i z show "\<exists>kvs cell sv n line kvs'.
                      get_prop item ''values'' = Inr (JObj kvs)
                      \<and> map_of kvs ''stock'' = Some cell
                      \<and> get_prop cell ''value'' = Inr sv
                      \<and> to_number sv = Inr n
                      \<and> purchase_line item = Inr line
                      \<and> line = JObj kvs'
                      \<and> map_of kvs' ''purchase''
                          = Some (JObj [(''value'', JNum (stockOrder n)), (''valid'', JBool True)])
                      \<and> (line \<in> set batch \<longleftrightarrow> num_less (Fin 0) (stockOrder n))
                      \<and> (stockOrder n = Fin 0 \<longrightarrow> line \<notin> set batch)"
        by blast
    qed
    from 1 la 2 3 show ?thesis
      by blast
  qed
  have b: "job_completed workbookId w = (Inl e, w)"
    if "purchaseInventory records = Inl e" for e
    using assms(1,2,3,4) that by (rule job_completed_map_throws)
  from a b show ?thesis
    by blast
qed

text \<open>
  Claim C4. When the secret \<^verbatim>\<open>email\<close> or the secret \<^verbatim>\<open>password\<close> is absent, the handler
  ends with the failure of that resolution and leaves the platform as it found it: no
  row is inserted and nothing is handed to the mail transport.
\<close>

theorem missing_secret_fails_before_mail:
  assumes "secret_store w ''email'' = None \<or> secret_store w ''password'' = None"
  shows "(\<exists>key. job_completed workbookId w = (Inl (SecretNotFound key), w))
         \<and> outbox (snd (job_completed workbookId w)) = outbox w"
proof (cases "secret_store w ''email''")
  case None
  then have "job_completed workbookId w = (Inl (SecretNotFound ''email''), w)"
    by (simp add: job_completed_def event_secrets_def)
  then show ?thesis by simp
next
  case (Some em)
  with assms have "secret_store w ''password'' = None" by simp
  with Some have "job_completed workbookId w = (Inl (SecretNotFound ''password''), w)"
    by (simp add: job_completed_def event_secrets_def)
  then show ?thesis by simp
qed

subsection \<open>The transformer and the handler on concrete rows\<close>

lemma item_with_stock_values:
  "get_prop (item_with_stock v) ''values'' =
     Inr (JObj [(''title'', JObj [(''value'', JStr (cp ''Dune''))]),
                (''stock'', JObj [(''value'', v)])])"
  "map_of [(''title'', JObj [(''value'', JStr (cp ''Dune''))]), (''stock'', JObj [(''value'', v)])]
     ''stock'' = Some (JObj [(''value'', v)])"
  "get_prop (JObj [(''value'', v)]) ''value'' = Inr v"
  by (simp_all add: item_with_stock_def get_prop_def)

lemma item_with_stock_read:
  assumes "get_prop (item_with_stock v) ''values'' = Inr (JObj kvs)"
    and "map_of kvs ''stock'' = Some cell"
    and "get_prop cell ''value'' = Inr sv"
  shows "sv = v"
  using assms by (auto simp: item_with_stock_def get_prop_def)

lemma to_number_number: "to_number (JNum x) = Inr x"
  by (simp add: to_number_def)

lemma stockOrder_one: "stockOrder (Fin 1) = Fin 2"
  using stockOrder_integer[of 1] by simp

lemma stockOrder_five: "stockOrder (Fin 5) = Fin 0"
  using stockOrder_integer[of 5] by simp

lemma example_lines:
  "purchase_line (item_with_stock (JNum (Fin 1))) = Inr (line_with_purchase (Fin 2))"
  "purchase_line (item_with_stock (JNum (Fin 5))) = Inr (line_with_purchase (Fin 0))"
  by (simp_all add: purchase_line_item_with_stock[OF to_number_number]
      stockOrder_one stockOrder_five)

theorem line_is_record_without_stock_with_purchase_witness:
  "purchase_line (item_with_stock (JNum (Fin 1))) = Inr (line_with_purchase (Fin 2))
   \<and> (\<exists>kvs kvs' q.
           get_prop (item_with_stock (JNum (Fin 1))) ''values'' = Inr (JObj kvs)
           \<and> line_with_purchase (Fin 2) = JObj kvs'
           \<and> map_of kvs' ''stock'' = None
           \<and> map_of kvs' ''purchase'' = Some (JObj [(''value'', JNum q), (''valid'', JBool True)])
           \<and> (\<forall>k. k \<noteq> ''stock'' \<and> k \<noteq> ''purchase'' \<longrightarrow> map_of kvs' k = map_of kvs k)
           \<and> filter (\<lambda>kv. fst kv \<noteq> ''stock'' \<and> fst kv \<noteq> ''purchase'') kvs'
               = filter (\<lambda>kv. fst kv \<noteq> ''stock'' \<and> fst kv \<noteq> ''purchase'') kvs)"
proof -
  note h = example_lines(1)
  from h line_is_record_without_stock_with_purchase[OF h] show ?thesis
    by (intro conjI)
qed

theorem quantity_is_max_three_minus_stock_witness:
  "get_prop (item_with_stock (JNum (Fin 1))) ''values'' =
     Inr (JObj [(''title'', JObj [(''value'', JStr (cp ''Dune''))]),
                (''stock'', JObj [(''value'', JNum (Fin 1))])])
   \<and> map_of [(''title'', JObj [(''value'', JStr (cp ''Dune''))]),
              (''stock'', JObj [(''value'', JNum (Fin 1))])] ''stock''
       = Some (JObj [(''value'', JNum (Fin 1))])
   \<and> get_prop (JObj [(''value'', JNum (Fin 1))]) ''value'' = Inr (JNum (Fin 1))
   \<and> (\<exists>line. purchase_line (item_with_stock (JNum (Fin 1))) = Inr line
          \<and> purchase_value line = Inr (JNum (Fin 2)))
   \<and> \<not> num_less (Fin 2) (Fin 0)"
proof -
  note h = item_with_stock_values[of "JNum (Fin 1)"]
  note t = quantity_is_max_three_minus_stock[OF h]
  from t have a: "\<forall>n. Fin 1 = Fin (of_int n) \<and> \<bar>3 - n\<bar> < 2 ^ 53
                \<longrightarrow> stockOrder (Fin 1) = Fin (of_int (max (3 - n) 0))"
    by blast
  have e: "stockOrder (Fin 1) = Fin 2"
    using a[rule_format, of 1] by simp
  from t have "(\<exists>line. purchase_line (item_with_stock (JNum (Fin 1))) = Inr line
          \<and> purchase_value line = Inr (JNum (Fin 2)))" and "\<not> num_less (Fin 2) (Fin 0)"
    unfolding e by blast+
  with h show ?thesis
    by (intro conjI)
qed

theorem purchase_value_nonneg_integer_iff_witness:
  "purchase_line (item_with_stock (JNum (Fin 5))) = Inr (line_with_purchase (Fin 0))
   \<and> purchase_value (line_with_purchase (Fin 0)) = Inr (JNum (Fin 0))
   \<and> nonneg_integer (JNum (Fin 0))"
proof -
  note h = example_lines(2)
  from purchase_value_nonneg_integer_iff[OF h] obtain kvs cell sv n where
    v: "get_prop (item_with_stock (JNum (Fin 5))) ''values'' = Inr (JObj kvs)" and
    c: "map_of kvs ''stock'' = Some cell" and
    s: "get_prop cell ''value'' = Inr sv" and
    n: "to_number sv = Inr n" and
    p: "purchase_value (line_with_purchase (Fin 0)) = Inr (JNum (stockOrder n))" and
    i: "\<forall>k. n = Fin (of_int k) \<and> \<bar>k\<bar> \<le> (2 ^ 53 - 1) * 2 ^ 971
              \<longrightarrow> nonneg_integer (JNum (stockOrder n))"
    by blast
  from v c s have "sv = JNum (Fin 5)"
    by (rule item_with_stock_read)
  with n have n5: "n = Fin 5"
    by (simp add: to_number_number)
  have "nonneg_integer (JNum (stockOrder n))"
    using i[rule_format, of 5] n5 by simp
  with p h show ?thesis
    unfolding n5 stockOrder_five by (intro conjI)
qed

theorem stock_is_coerced_not_validated_witness:
  "get_prop (item_with_stock (JBool True)) ''values'' =
     Inr (JObj [(''title'', JObj [(''value'', JStr (cp ''Dune''))]),
                (''stock'', JObj [(''value'', JBool True)])])
   \<and> map_of [(''title'', JObj [(''value'', JStr (cp ''Dune''))]),
              (''stock'', JObj [(''value'', JBool True)])] ''stock''
       = Some (JObj [(''value'', JBool True)])
   \<and> get_prop (JObj [(''value'', JBool True)]) ''value'' = Inr (JBool True)
   \<and> to_number (JBool True) = Inr (Fin 1)
   \<and> (\<exists>line. purchase_line (item_with_stock (JBool True)) = Inr line
          \<and> purchase_value line = Inr (JNum (Fin 2)))
   \<and> get_prop item_without_stock ''values''
       = Inr (JObj [(''title'', JObj [(''value'', JStr (cp ''Emma''))])])
   \<and> map_of [(''title'', JObj [(''value'', JStr (cp ''Emma''))])] ''stock'' = None
   \<and> purchase_line item_without_stock = Inl TypeError"
proof -
  note h = item_with_stock_values[of "JBool True"]
  have n: "to_number (JBool True) = Inr (Fin 1)"
    by (simp add: to_number_def)
  have q: "math_max (js_sub (Fin 3) (Fin 1)) (Fin 0) = Fin 2"
    using stockOrder_one by (simp only: stockOrder_def)
  have g: "get_prop item_without_stock ''values''
       = Inr (JObj [(''title'', JObj [(''value'', JStr (cp ''Emma''))])])"
    and m: "map_of [(''title'', JObj [(''value'', JStr (cp ''Emma''))])] ''stock'' = None"
    by (simp_all add: item_without_stock_def get_prop_def)
  note t = stock_is_coerced_not_validated[of "item_with_stock (JBool True)"]
  note u = stock_is_coerced_not_validated[of item_without_stock]
  from t h n have "\<exists>line. purchase_line (item_with_stock (JBool True)) = Inr line
          \<and> purchase_value line = Inr (JNum (math_max (js_sub (Fin 3) (Fin 1)) (Fin 0)))"
    by blast
  then have 1: "\<exists>line. purchase_line (item_with_stock (JBool True)) = Inr line
          \<and> purchase_value line = Inr (JNum (Fin 2))"
    unfolding q .
  from u g m have 2: "purchase_line item_without_stock = Inl TypeError"
    by blast
  from h n 1 g m 2 show ?thesis
    by (intro conjI)
qed

lemma example_inventory:
  "purchaseInventory [item_with_stock (JNum (Fin 1)), item_with_stock (JNum (Fin 5))]
     = Inr [line_with_purchase (Fin 2), line_with_purchase (Fin 0)]"
  by (simp add: purchaseInventory_def example_lines)

theorem purchase_line_inserted_iff_positive_witness:
  "secret_store example_world ''email'' = Some (cp ''shop@books.com'')
   \<and> secret_store example_world ''password'' = Some (cp ''hunter2'')
   \<and> workbooks example_world ''wb_1'' = Some (''sh_inventory'' # ''sh_orders'' # [])
   \<and> sheets example_world ''sh_inventory''
       = Some [item_with_stock (JNum (Fin 1)), item_with_stock (JNum (Fin 5))]
   \<and> sheets example_world ''sh_orders'' = Some []
   \<and> purchaseInventory [item_with_stock (JNum (Fin 1)), item_with_stock (JNum (Fin 5))]
       = Inr [line_with_purchase (Fin 2), line_with_purchase (Fin 0)]
   \<and> sheets (snd (job_completed ''wb_1'' example_world)) ''sh_orders''
       = Some [new_record (line_with_purchase (Fin 2))]"
proof -
  have h1: "secret_store example_world ''email'' = Some (cp ''shop@books.com'')"
    and h2: "secret_store example_world ''password'' = Some (cp ''hunter2'')"
    and h3: "workbooks example_world ''wb_1'' = Some (''sh_inventory'' # ''sh_orders'' # [])"
    and h4: "sheets example_world ''sh_inventory''
       = Some [item_with_stock (JNum (Fin 1)), item_with_stock (JNum (Fin 5))]"
    and h5: "sheets example_world ''sh_orders'' = Some []"
    by (simp_all add: example_world_def)
  note h6 = example_inventory
  note t = purchase_line_inserted_iff_positive[OF h1 h2 h3 h4 h5]
  from t h6 obtain batch where
    s: "sheets (snd (job_completed ''wb_1'' example_world)) ''sh_orders''
          = Some ([] @ map new_record batch)" and
    f: "batch = filter (\<lambda>line. line \<in> set batch)
                  [line_with_purchase (Fin 2), line_with_purchase (Fin 0)]" and
    r: "\<forall>item\<in>set [item_with_stock (JNum (Fin 1)), item_with_stock (JNum (Fin 5))].
          \<exists>kvs cell sv n line kvs'.
            get_prop item ''values'' = Inr (JObj kvs)
            \<and> map_of kvs ''stock'' = Some cell
            \<and> get_prop cell ''value'' = Inr sv
            \<and> to_number sv = Inr n
            \<and> purchase_line item = Inr line
            \<and> line = JObj kvs'
            \<and> map_of kvs' ''purchase''
                = Some (JObj [(''value'', JNum (stockOrder n)), (''valid'', JBool True)])
            \<and> (line \<in> set batch \<longleftrightarrow> num_less (Fin 0) (stockOrder n))
            \<and> (stockOrder n = Fin 0 \<longrightarrow> line \<notin> set batch)"
    by blast
  have in2: "line_with_purchase (Fin 2) \<in> set batch"
  proof -
    from r obtain kvs cell sv n line where
      v: "get_prop (item_with_stock (JNum (Fin 1))) ''values'' = Inr (JObj kvs)" and
      c: "map_of kvs ''stock'' = Some cell" and
      g: "get_prop cell ''value'' = Inr sv" and
      n: "to_number sv = Inr n" and
      p: "purchase_line (item_with_stock (JNum (Fin 1))) = Inr line" and
      i: "line \<in> set batch \<longleftrightarrow> num_less (Fin 0) (stockOrder n)"
      by force
    from v c g have "sv = JNum (Fin 1)"
      by (rule item_with_stock_read)
    with n have "n = Fin 1"
      by (simp add: to_number_number)
    moreover from p have "line = line_with_purchase (Fin 2)"
      by (simp add: example_lines)
    ultimately show ?thesis
      using i by (simp add: stockOrder_one)
  qed
  have out0: "line_with_purchase (Fin 0) \<notin> set batch"
  proof -
    from r obtain kvs cell sv n line where
      v: "get_prop (item_with_stock (JNum (Fin 5))) ''values'' = Inr (JObj kvs)" and
      c: "map_of kvs ''stock'' = Some cell" and
      g: "get_prop cell ''value'' = Inr sv" and
      n: "to_number sv = Inr n" and
      p: "purchase_line (item_with_stock (JNum (Fin 5))) = Inr line" and
      i: "line \<in> set batch \<longleftrightarrow> num_less (Fin 0) (stockOrder n)"
      by force
    from v c g have "sv = JNum (Fin 5)"
      by (rule item_with_stock_read)
    with n have "n = Fin 5"
      by (simp add: to_number_number)
    moreover from p have "line = line_with_purchase (Fin 0)"
      by (simp add: example_lines)
    ultimately show ?thesis
      using i by (simp add: stockOrder_five)
  qed
  from f in2 out0 have "batch = [line_with_purchase (Fin 2)]"
    by simp
  with s have 7: "sheets (snd (job_completed ''wb_1'' example_world)) ''sh_orders''
       = Some [new_record (line_with_purchase (Fin 2))]"
    by simp
  from h1 h2 h3 h4 h5 h6 7 show ?thesis
    by (intro conjI)
qed

theorem missing_secret_fails_before_mail_witness:
  "(secret_store (example_world\<lparr>secret_store := [''email'' \<mapsto> cp ''shop@books.com'']\<rparr>) ''email''
      = None
    \<or> secret_store (example_world\<lparr>secret_store := [''email'' \<mapsto> cp ''shop@books.com'']\<rparr>)
        ''password'' = None)
   \<and> (\<exists>key. job_completed ''wb_1''
               (example_world\<lparr>secret_store := [''email'' \<mapsto> cp ''shop@books.com'']\<rparr>)
             = (Inl (SecretNotFound key),
                example_world\<lparr>secret_store := [''email'' \<mapsto> cp ''shop@books.com'']\<rparr>))
   \<and> outbox (snd (job_completed ''wb_1''
                    (example_world\<lparr>secret_store := [''email'' \<mapsto> cp ''shop@books.com'']\<rparr>)))
       = outbox (example_world\<lparr>secret_store := [''email'' \<mapsto> cp ''shop@books.com'']\<rparr>)"
proof -
  have h: "secret_store (example_world\<lparr>secret_store := [''email'' \<mapsto> cp ''shop@books.com'']\<rparr>)
             ''email'' = None
    \<or> secret_store (example_world\<lparr>secret_store := [''email'' \<mapsto> cp ''shop@books.com'']\<rparr>)
        ''password'' = None"
    by simp
  from h missing_secret_fails_before_mail[OF h, of "''wb_1''"] show ?thesis
    by (intro conjI) simp_all
qed

end
